theory Spec2Isabelle
  imports Complex_Main "HOL-Library.Word" "HOL-Library.Signed_Division"
begin

section \<open>Geometry: \<^verbatim>\<open>cv::Rect\<close>, \<^verbatim>\<open>pickLargest\<close> and the ROI expansion of \<^verbatim>\<open>main\<close>\<close>

text \<open>
  \<^verbatim>\<open>cv::Rect\<close> is \<^verbatim>\<open>cv::Rect_<int>\<close>: four \<^verbatim>\<open>int\<close> fields. Every rectangle the
  program handles lies inside a decoded image, whose pixel count \<^verbatim>\<open>imread\<close> bounds by
  \<open>2^30\<close>, so the products and sums below stay inside the 32-bit range and the fields are
  modelled as \<open>int\<close>. The C++ operator \<^verbatim>\<open>/\<close> truncates towards zero: it is \<open>sdiv\<close>.
\<close>

record rect =
  r_x :: int
  r_y :: int
  r_width :: int
  r_height :: int

definition area :: "rect \<Rightarrow> int" where
  "area r = r_width r * r_height r"

text \<open>The value-initialised \<^verbatim>\<open>cv::Rect\<close> that \<^verbatim>\<open>return {};\<close> yields.\<close>

definition Rect0 :: rect where
  "Rect0 = \<lparr>r_x = 0, r_y = 0, r_width = 0, r_height = 0\<rparr>"

text \<open>
  The loop of \<^verbatim>\<open>pickLargest\<close>:
  \<^verbatim>\<open>for (size_t i = 1; i < rects.size(); ++i) if (rects[i].area() > rects[best].area()) best = i;\<close>
  with the loop counter and \<^verbatim>\<open>best\<close> as arguments.
\<close>

function pickLargest_loop :: "rect list \<Rightarrow> nat \<Rightarrow> nat \<Rightarrow> nat" where
  "pickLargest_loop rects i best =
     (if i < length rects
      then pickLargest_loop rects (Suc i)
             (if area (rects ! i) > area (rects ! best) then i else best)
      else best)"
  by pat_completeness auto
termination
  by (relation "measure (\<lambda>(rects, i, best). length rects - i)") auto

declare pickLargest_loop.simps [simp del]

definition pickLargest :: "rect list \<Rightarrow> rect" where
  "pickLargest rects =
     (if rects = [] then Rect0 else rects ! pickLargest_loop rects 1 0)"

text \<open>
  Lines 157--161 of \<^verbatim>\<open>main\<close>: the padding and the clamped ROI, for an image of
  \<open>cols\<close> columns and \<open>rows\<close> rows.
\<close>

definition expandRoi :: "rect \<Rightarrow> int \<Rightarrow> int \<Rightarrow> rect" where
  "expandRoi faceRect cols rows =
     (let padX = r_width faceRect sdiv 8;
          padY = r_height faceRect sdiv 6
      in \<lparr>r_x = max 0 (r_x faceRect - padX),
          r_y = max 0 (r_y faceRect - padY),
          r_width = min (r_width faceRect + 2 * padX) (cols - max 0 (r_x faceRect - padX)),
          r_height = min (r_height faceRect + 2 * padY) (rows - max 0 (r_y faceRect - padY))\<rparr>)"

text \<open>The Rect invariant of the data model, relative to an image of the given size.\<close>

definition rect_inv :: "rect \<Rightarrow> int \<Rightarrow> int \<Rightarrow> bool" where
  "rect_inv r cols rows \<longleftrightarrow>
     0 \<le> r_x r \<and> 0 \<le> r_y r \<and> r_x r + r_width r \<le> cols \<and> r_y r + r_height r \<le> rows \<and>
     0 < r_width r \<and> 0 < r_height r"

definition rect_contains :: "rect \<Rightarrow> rect \<Rightarrow> bool" where
  "rect_contains outer inner \<longleftrightarrow>
     r_x outer \<le> r_x inner \<and> r_y outer \<le> r_y inner \<and>
     r_x inner + r_width inner \<le> r_x outer + r_width outer \<and>
     r_y inner + r_height inner \<le> r_y outer + r_height outer"

text \<open>
  The expansion policy in the words of the specification: pad by \<open>width / 8\<close> on the left
  and on the right and by \<open>height / 6\<close> above and below (integer division), then shift the
  origin into the image and cap each extent by the space that remains behind the
  shifted origin.
\<close>

definition spec_pad :: "rect \<Rightarrow> rect" where
  "spec_pad f =
     \<lparr>r_x = r_x f - r_width f sdiv 8, r_y = r_y f - r_height f sdiv 6,
      r_width = r_width f sdiv 8 + r_width f + r_width f sdiv 8,
      r_height = r_height f sdiv 6 + r_height f + r_height f sdiv 6\<rparr>"

definition spec_clamp :: "rect \<Rightarrow> int \<Rightarrow> int \<Rightarrow> rect" where
  "spec_clamp p cols rows =
     \<lparr>r_x = max 0 (r_x p), r_y = max 0 (r_y p),
      r_width = min (r_width p) (cols - max 0 (r_x p)),
      r_height = min (r_height p) (rows - max 0 (r_y p))\<rparr>"


section \<open>Images, pixels and the OpenCV operations the program calls\<close>

text \<open>
  A \<^verbatim>\<open>cv::Mat\<close> value: its size and its element at row \<open>y\<close>, column \<open>x\<close>. Only the
  elements with \<open>0 \<le> y < m_rows\<close> and \<open>0 \<le> x < m_cols\<close> belong to the image. An 8-bit
  BGR pixel (\<^verbatim>\<open>CV_8UC3\<close>) is a triple of bytes, a \<^verbatim>\<open>CV_32F\<close> element a real number
  (exact arithmetic stands in for the single-precision operations).
\<close>

type_synonym uchar = "8 word"
type_synonym vec3b = "uchar \<times> uchar \<times> uchar"

record 'a mat =
  m_rows :: int
  m_cols :: int
  m_at :: "int \<Rightarrow> int \<Rightarrow> 'a"

definition mat_empty :: "'a mat \<Rightarrow> bool" where
  "mat_empty m \<longleftrightarrow> m_rows m \<le> 0 \<or> m_cols m \<le> 0"

definition same_pixels :: "'a mat \<Rightarrow> 'a mat \<Rightarrow> bool" where
  "same_pixels a b \<longleftrightarrow>
     m_rows a = m_rows b \<and> m_cols a = m_cols b \<and>
     (\<forall>y\<in>{0..<m_rows a}. \<forall>x\<in>{0..<m_cols a}. m_at a y x = m_at b y x)"

definition inside :: "rect \<Rightarrow> int \<Rightarrow> int \<Rightarrow> bool" where
  "inside r y x \<longleftrightarrow> r_x r \<le> x \<and> x < r_x r + r_width r \<and> r_y r \<le> y \<and> y < r_y r + r_height r"

fun map3 :: "('a \<Rightarrow> 'b) \<Rightarrow> 'a \<times> 'a \<times> 'a \<Rightarrow> 'b \<times> 'b \<times> 'b" where
  "map3 f (b, g, r) = (f b, f g, f r)"

fun zip3 :: "('a \<Rightarrow> 'b \<Rightarrow> 'c) \<Rightarrow> 'a \<times> 'a \<times> 'a \<Rightarrow> 'b \<times> 'b \<times> 'b \<Rightarrow> 'c \<times> 'c \<times> 'c" where
  "zip3 f (b, g, r) (b', g', r') = (f b b', f g g', f r r')"

text \<open>
  \<^verbatim>\<open>cvRound\<close> rounds to the nearest integer, a tie to the even one;
  \<^verbatim>\<open>saturate_cast<uchar>\<close> clips to \<open>0..255\<close>; \<^verbatim>\<open>std::round\<close> rounds a tie away from
  zero.
\<close>

definition cvRound :: "real \<Rightarrow> int" where
  "cvRound v =
     (let f = \<lfloor>v\<rfloor>; d = v - of_int f
      in if d < 1 / 2 then f else if d > 1 / 2 then f + 1 else if even f then f else f + 1)"

definition saturate_uchar :: "int \<Rightarrow> uchar" where
  "saturate_uchar v = (if v < 0 then 0 else if v > 255 then 255 else word_of_int v)"

definition std_round :: "real \<Rightarrow> int" where
  "std_round v = (if 0 \<le> v then \<lfloor>v + 1 / 2\<rfloor> else \<lceil>v - 1 / 2\<rceil>)"

datatype cv_exception = CvException string

text \<open>
  The OpenCV entry points whose results depend on trained models, on the codec or on
  numeric kernels are parameters of the model. A filter that returns an image of the size
  of its input is given by the pixel it computes at \<open>(y, x)\<close>. \<open>cv_dnn_upsample\<close> stands
  for \<^verbatim>\<open>readModel\<close>, \<^verbatim>\<open>setModel\<close> and \<^verbatim>\<open>upsample\<close> of \<^verbatim>\<open>DnnSuperResImpl\<close>: \<open>Inl what\<close>
  is a thrown \<^verbatim>\<open>cv::Exception\<close> with that message.
\<close>

record cvlib =
  cv_imread :: "string \<Rightarrow> vec3b mat"
  cv_cascade_load :: "string \<Rightarrow> bool"
  cv_BGR2GRAY :: "vec3b \<Rightarrow> uchar"
  cv_equalizeHist :: "uchar mat \<Rightarrow> int \<Rightarrow> int \<Rightarrow> uchar"
  cv_detectMultiScale :: "uchar mat \<Rightarrow> rect list"
  cv_resize_cubic :: "vec3b mat \<Rightarrow> int \<Rightarrow> int \<Rightarrow> int \<Rightarrow> int \<Rightarrow> vec3b"
  cv_dnn_upsample :: "string \<Rightarrow> string \<Rightarrow> int \<Rightarrow> vec3b mat \<Rightarrow> string + vec3b mat"
  cv_GaussianBlur :: "vec3b mat \<Rightarrow> int \<Rightarrow> int \<Rightarrow> int \<Rightarrow> vec3b"
  cv_BGR2YCrCb :: "vec3b \<Rightarrow> vec3b"
  cv_YCrCb2BGR :: "vec3b \<Rightarrow> vec3b"
  cv_clahe_apply :: "uchar mat \<Rightarrow> int \<Rightarrow> int \<Rightarrow> uchar"
  cv_fastNlMeansDenoisingColored :: "vec3b mat \<Rightarrow> int \<Rightarrow> int \<Rightarrow> vec3b"
  cv_getGaussianKernel :: "int \<Rightarrow> real \<Rightarrow> real list"
  cv_imwrite :: "string \<Rightarrow> vec3b mat \<Rightarrow> bool"

text \<open>
  \<^verbatim>\<open>cv::resize\<close> with \<^verbatim>\<open>INTER_CUBIC\<close>. It asserts that the source is not empty; with an
  empty \<^verbatim>\<open>dsize\<close> it asserts positive scale factors, takes
  \<^verbatim>\<open>Size(saturate_cast<int>(cols*fx), saturate_cast<int>(rows*fy))\<close> and asserts that
  this size is not empty. The scaled sizes are taken to fit a C \<^verbatim>\<open>int\<close>.
\<close>

definition resize_dsize :: "cvlib \<Rightarrow> vec3b mat \<Rightarrow> int \<Rightarrow> int \<Rightarrow> cv_exception + vec3b mat" where
  "resize_dsize lib src w h =
     (if mat_empty src then Inl (CvException ''!ssize.empty()'')
      else if w \<le> 0 \<or> h \<le> 0 then Inl (CvException ''inv_scale_x > 0'')
      else Inr \<lparr>m_rows = h, m_cols = w, m_at = cv_resize_cubic lib src w h\<rparr>)"

definition resize_scale :: "cvlib \<Rightarrow> vec3b mat \<Rightarrow> real \<Rightarrow> real \<Rightarrow> cv_exception + vec3b mat" where
  "resize_scale lib src fx fy =
     (if mat_empty src then Inl (CvException ''!ssize.empty()'')
      else if \<not> 0 < fx then Inl (CvException ''inv_scale_x > 0'')
      else if \<not> 0 < fy then Inl (CvException ''inv_scale_y > 0'')
      else let w = cvRound (of_int (m_cols src) * fx); h = cvRound (of_int (m_rows src) * fy)
           in if w \<le> 0 \<or> h \<le> 0 then Inl (CvException ''!dsize.empty()'')
              else Inr \<lparr>m_rows = h, m_cols = w, m_at = cv_resize_cubic lib src w h\<rparr>)"

text \<open>
  \<^verbatim>\<open>cv::addWeighted(src1, alpha, src2, beta, gamma, dst)\<close> on 8-bit images:
  \<^verbatim>\<open>dst = saturate_cast<uchar>(src1*alpha + src2*beta + gamma)\<close> in every channel.
\<close>

definition addWeighted :: "vec3b mat \<Rightarrow> real \<Rightarrow> vec3b mat \<Rightarrow> real \<Rightarrow> real \<Rightarrow> vec3b mat" where
  "addWeighted src1 alpha src2 beta gamma =
     src1\<lparr>m_at := \<lambda>y x.
        zip3 (\<lambda>a b. saturate_uchar (cvRound (real (unat a) * alpha + real (unat b) * beta + gamma)))
          (m_at src1 y x) (m_at src2 y x)\<rparr>"

definition GaussianBlur :: "cvlib \<Rightarrow> vec3b mat \<Rightarrow> int \<Rightarrow> vec3b mat" where
  "GaussianBlur lib src k = src\<lparr>m_at := cv_GaussianBlur lib src k\<rparr>"

text \<open>
  \<^verbatim>\<open>cv::borderInterpolate(p, len, BORDER_REFLECT_101)\<close>, the border mode that
  \<^verbatim>\<open>sepFilter2D\<close> takes when the caller passes none
  (\<^verbatim>\<open>borderType = BORDER_DEFAULT = BORDER_REFLECT_101\<close>): an index outside \<open>0..<len\<close> is
  mirrored at the first and at the last element until it falls inside; for \<open>len = 1\<close>
  the result is 0. The filter is only ever applied to a non-empty field, so \<open>len \<le> 0\<close>
  does not occur; the model returns 0 there.
\<close>

function borderInterpolate :: "int \<Rightarrow> int \<Rightarrow> int" where
  "borderInterpolate p len =
     (if 0 \<le> p \<and> p < len then p
      else if len \<le> 1 then 0
      else borderInterpolate (if p < 0 then - p - 1 + 1 else len - 1 - (p - len) - 1) len)"
  by pat_completeness auto
termination
  by (relation "measure (\<lambda>(p, len). nat (if p < 0 then 2 * (- p) + 1 else if len \<le> p then 2 * p else 0))")
     auto

declare borderInterpolate.simps [simp del]

text \<open>
  \<^verbatim>\<open>cv::sepFilter2D(src, dst, -1, kernelX, kernelY)\<close> with the default anchor (the kernel
  centre), \<open>delta = 0\<close> and the default border: every row is correlated with \<open>kernelX\<close>,
  then every column with \<open>kernelY\<close>.
\<close>

definition sepFilter2D :: "real mat \<Rightarrow> real list \<Rightarrow> real list \<Rightarrow> real mat" where
  "sepFilter2D src kernelX kernelY =
     (let ax = int (length kernelX) div 2;
          ay = int (length kernelY) div 2;
          rowf = (\<lambda>y x. \<Sum>j\<leftarrow>[0..<length kernelX].
                    kernelX ! j * m_at src y (borderInterpolate (x + int j - ax) (m_cols src)))
      in src\<lparr>m_at := \<lambda>y x. \<Sum>i\<leftarrow>[0..<length kernelY].
                    kernelY ! i * rowf (borderInterpolate (y + int i - ay) (m_rows src)) x\<rparr>)"

definition mat_values :: "'a mat \<Rightarrow> 'a list" where
  "mat_values m =
     concat (map (\<lambda>y. map (\<lambda>x. m_at m y x) [0..m_cols m - 1]) [0..m_rows m - 1])"

definition DBL_EPSILON :: real where
  "DBL_EPSILON = 1 / 2 ^ 52"

text \<open>
  \<^verbatim>\<open>cv::normalize(src, dst, a, b, cv::NORM_MINMAX)\<close>:
  \<^verbatim>\<open>scale = (dmax - dmin)*(smax - smin > DBL_EPSILON ? 1./(smax - smin) : 0)\<close>,
  \<^verbatim>\<open>shift = dmin - smin*scale\<close>, \<^verbatim>\<open>dst = src*scale + shift\<close>.
\<close>

definition normalize_minmax :: "real mat \<Rightarrow> real \<Rightarrow> real \<Rightarrow> real mat" where
  "normalize_minmax src a b =
     (let smin = Min (set (mat_values src));
          smax = Max (set (mat_values src));
          dmin = min a b;
          dmax = max a b;
          scale = (dmax - dmin) * (if smax - smin > DBL_EPSILON then 1 / (smax - smin) else 0);
          shift = dmin - smin * scale
      in src\<lparr>m_at := \<lambda>y x. m_at src y x * scale + shift\<rparr>)"

section \<open>The stages of the program\<close>

record Args =
  inputPath :: string
  outputPath :: string
  cascadePath :: string
  srModelPath :: string
  srScale :: real
  sharpenAmount :: real

text \<open>\<^verbatim>\<open>unsharpMask\<close>. The clone returned for \<open>amount \<le> 0\<close> is the same image value.\<close>

definition unsharpMask :: "cvlib \<Rightarrow> vec3b mat \<Rightarrow> real \<Rightarrow> vec3b mat" where
  "unsharpMask lib srcBgr amount =
     (if amount \<le> 0 then srcBgr
      else let k = (if amount < 75 / 100 then 3 else if amount < 15 / 10 then 5
                    else if amount < 25 / 10 then 7 else (9::int));
               blurred = GaussianBlur lib srcBgr k
           in addWeighted srcBgr (1 + amount) blurred (- amount) 0)"

text \<open>
  \<^verbatim>\<open>enhanceLumaCLAHE\<close>: to YCrCb, CLAHE on channel 0, merge, back to BGR. The first
  component of a converted pixel is channel 0.
\<close>

definition enhanceLumaCLAHE :: "cvlib \<Rightarrow> vec3b mat \<Rightarrow> vec3b mat" where
  "enhanceLumaCLAHE lib srcBgr =
     (let ycrcb = srcBgr\<lparr>m_at := \<lambda>y x. cv_BGR2YCrCb lib (m_at srcBgr y x)\<rparr>;
          ch0 = \<lparr>m_rows = m_rows ycrcb, m_cols = m_cols ycrcb, m_at = \<lambda>y x. fst (m_at ycrcb y x)\<rparr>;
          ch0' = ch0\<lparr>m_at := cv_clahe_apply lib ch0\<rparr>;
          merged = ycrcb\<lparr>m_at := \<lambda>y x. (m_at ch0' y x, snd (m_at ycrcb y x))\<rparr>
      in merged\<lparr>m_at := \<lambda>y x. cv_YCrCb2BGR lib (m_at merged y x)\<rparr>)"

text \<open>\<^verbatim>\<open>featherMask\<close>, with the size given as width and height.\<close>

definition featherMask :: "cvlib \<Rightarrow> int \<Rightarrow> int \<Rightarrow> int \<Rightarrow> real mat" where
  "featherMask lib width height radius =
     (let mask = \<lparr>m_rows = height, m_cols = width, m_at = \<lambda>y x. 1\<rparr>;
          r = max 1 radius;
          kernel = cv_getGaussianKernel lib (r * 2 + 1) (of_int r);
          gauss = sepFilter2D mask kernel kernel
      in normalize_minmax gauss 0 1)"

section \<open>Shared pixel buffers\<close>

text \<open>
  A \<^verbatim>\<open>cv::Mat\<close> is a header on a reference-counted buffer: \<^verbatim>\<open>clone()\<close> allocates a new
  buffer, \<^verbatim>\<open>m(roi)\<close> makes a second header on the same buffer, and \<^verbatim>\<open>convertTo\<close> into a
  header of the right size and type writes through it. The heap maps a buffer address to
  the buffer's pixels; a header names its buffer, the origin of its view and its size.
  Only the buffers of \<^verbatim>\<open>img\<close> and \<^verbatim>\<open>result\<close> are ever seen through two headers, so the
  other images of \<^verbatim>\<open>main\<close> are values.
\<close>

type_synonym addr = nat

record heap =
  h_data :: "addr \<Rightarrow> int \<Rightarrow> int \<Rightarrow> vec3b"
  h_next :: addr

record matref =
  mr_buf :: addr
  mr_y0 :: int
  mr_x0 :: int
  mr_rows :: int
  mr_cols :: int

definition heap0 :: heap where
  "heap0 = \<lparr>h_data = \<lambda>a y x. (0, 0, 0), h_next = 0\<rparr>"

definition mat_load :: "heap \<Rightarrow> matref \<Rightarrow> vec3b mat" where
  "mat_load h m =
     \<lparr>m_rows = mr_rows m, m_cols = mr_cols m,
      m_at = \<lambda>y x. h_data h (mr_buf m) (mr_y0 m + y) (mr_x0 m + x)\<rparr>"

definition mat_alloc :: "heap \<Rightarrow> vec3b mat \<Rightarrow> matref \<times> heap" where
  "mat_alloc h v =
     (\<lparr>mr_buf = h_next h, mr_y0 = 0, mr_x0 = 0, mr_rows = m_rows v, mr_cols = m_cols v\<rparr>,
      h\<lparr>h_data := (h_data h)(h_next h := m_at v), h_next := Suc (h_next h)\<rparr>)"

definition mat_clone :: "heap \<Rightarrow> matref \<Rightarrow> matref \<times> heap" where
  "mat_clone h m = mat_alloc h (mat_load h m)"

text \<open>
  \<^verbatim>\<open>Mat::operator()(const Rect&)\<close> asserts
  \<^verbatim>\<open>0 <= roi.x && 0 <= roi.width && roi.x + roi.width <= m.cols && 0 <= roi.y && 0 <= roi.height && roi.y + roi.height <= m.rows\<close>.
\<close>

definition mat_roi :: "matref \<Rightarrow> rect \<Rightarrow> cv_exception + matref" where
  "mat_roi m roi =
     (if 0 \<le> r_x roi \<and> 0 \<le> r_width roi \<and> r_x roi + r_width roi \<le> mr_cols m \<and>
         0 \<le> r_y roi \<and> 0 \<le> r_height roi \<and> r_y roi + r_height roi \<le> mr_rows m
      then Inr \<lparr>mr_buf = mr_buf m, mr_y0 = mr_y0 m + r_y roi, mr_x0 = mr_x0 m + r_x roi,
                mr_rows = r_height roi, mr_cols = r_width roi\<rparr>
      else Inl (CvException ''0 <= roi.x && 0 <= roi.width && roi.x + roi.width <= m.cols''))"

definition mat_store :: "heap \<Rightarrow> matref \<Rightarrow> vec3b mat \<Rightarrow> heap" where
  "mat_store h m v =
     h\<lparr>h_data := (h_data h)(mr_buf m := \<lambda>y x.
         if mr_y0 m \<le> y \<and> y < mr_y0 m + mr_rows m \<and> mr_x0 m \<le> x \<and> x < mr_x0 m + mr_cols m
         then m_at v (y - mr_y0 m) (x - mr_x0 m)
         else h_data h (mr_buf m) y x)\<rparr>"

text \<open>
  \<^verbatim>\<open>pasteWithFeather\<close>. \<^verbatim>\<open>convertTo(_, CV_32F, 1.0/255.0)\<close> divides every channel by 255,
  \<^verbatim>\<open>convertTo(dstROI, CV_8U, 255.0)\<close> is \<^verbatim>\<open>saturate_cast<uchar>(v * 255)\<close>, written
  through \<^verbatim>\<open>dstROI\<close> into the buffer of the canvas. \<open>feather_blend\<close> is lines 115--124:
  the image that the last \<^verbatim>\<open>convertTo\<close> writes.

  In \<^verbatim>\<open>1.0 - mF\<close> the only operator that applies is
  \<^verbatim>\<open>operator-(const Scalar&, const Mat&)\<close>: the \<^verbatim>\<open>double\<close> converts to
  \<^verbatim>\<open>cv::Scalar(1.0)\<close>, which is \<open>(1, 0, 0, 0)\<close>, and \<^verbatim>\<open>cv::subtract\<close> takes one
  component of the scalar per channel. On the three-channel \<^verbatim>\<open>mF\<close> the result is
  \<open>(1 - m, 0 - m, 0 - m)\<close>.
\<close>

definition feather_blend :: "cvlib \<Rightarrow> rect \<Rightarrow> vec3b mat \<Rightarrow> vec3b mat \<Rightarrow> vec3b mat" where
  "feather_blend lib roi resizedFace dst =
     (let mask = featherMask lib (r_width roi) (r_height roi) (max 3 (r_width roi sdiv 20));
          mask3 = (\<lambda>y x. (m_at mask y x, m_at mask y x, m_at mask y x));
          dstF = (\<lambda>y x. map3 (\<lambda>c. real (unat c) * (1 / 255)) (m_at dst y x));
          srcF = (\<lambda>y x. map3 (\<lambda>c. real (unat c) * (1 / 255)) (m_at resizedFace y x));
          mF = mask3;
          blended = (\<lambda>y x. zip3 plus (zip3 times (srcF y x) (mF y x))
                                     (zip3 times (dstF y x) (zip3 minus (1, 0, 0) (mF y x))))
      in \<lparr>m_rows = r_height roi, m_cols = r_width roi,
          m_at = \<lambda>y x. map3 (\<lambda>v. saturate_uchar (cvRound (v * 255))) (blended y x)\<rparr>)"

definition pasteWithFeather :: "cvlib \<Rightarrow> vec3b mat \<Rightarrow> rect \<Rightarrow> matref \<Rightarrow> heap \<Rightarrow> cv_exception + heap" where
  "pasteWithFeather lib faceBgr roi canvasBgr h =
     (case mat_roi canvasBgr roi of
        Inl e \<Rightarrow> Inl e
      | Inr dstROI \<Rightarrow>
          (case resize_dsize lib faceBgr (r_width roi) (r_height roi) of
             Inl e \<Rightarrow> Inl e
           | Inr resizedFace \<Rightarrow>
               Inr (mat_store h dstROI (feather_blend lib roi resizedFace (mat_load h dstROI)))))"

section \<open>The program\<close>

text \<open>
  The algorithm name inferred from the model's file name (lines 171--174): the path in
  lower case is searched for \<^verbatim>\<open>edsr\<close>, then for \<^verbatim>\<open>lapsrn\<close>.
\<close>

definition tolower_char :: "char \<Rightarrow> char" where
  "tolower_char c =
     (if 65 \<le> (of_char c :: nat) \<and> (of_char c :: nat) \<le> 90 then char_of (of_char c + (32::nat)) else c)"

fun str_find :: "string \<Rightarrow> string \<Rightarrow> bool" where
  "str_find sub [] = (sub = [])"
| "str_find sub (c # cs) = (take (length sub) (c # cs) = sub \<or> str_find sub cs)"

definition infer_algo :: "string \<Rightarrow> string" where
  "infer_algo path =
     (let lower = map tolower_char path
      in if str_find ''edsr'' lower then ''edsr''
         else if str_find ''lapsrn'' lower then ''lapsrn'' else ''edsr'')"

text \<open>The literal \<^verbatim>\<open>1.01\<close> of line 189 is the nearest \<^verbatim>\<open>double\<close>.\<close>

definition scale_threshold :: real where
  "scale_threshold = 4548635623644201 / 2 ^ 52"

text \<open>
  Lines 166--194 of \<^verbatim>\<open>main\<close> (built without \<^verbatim>\<open>NO_SUPERRES\<close>): the optional
  super-resolution of the cropped face. The result is the diagnostics written to
  \<^verbatim>\<open>cerr\<close> and either the new \<^verbatim>\<open>face\<close> or the exception that leaves the block.
\<close>

definition superResolution :: "cvlib \<Rightarrow> Args \<Rightarrow> vec3b mat \<Rightarrow> string list \<times> (cv_exception + vec3b mat)" where
  "superResolution lib args face =
     (if srModelPath args \<noteq> [] \<and> srScale args \<ge> 15 / 10
      then (case cv_dnn_upsample lib (srModelPath args) (infer_algo (srModelPath args))
                   (std_round (srScale args)) face of
              Inr up \<Rightarrow> ([], Inr up)
            | Inl what \<Rightarrow>
                ([''Super-resolution failed: '' @ what @ ''. Using bicubic.''],
                 resize_scale lib face (srScale args) (srScale args)))
      else if srScale args > scale_threshold
           then ([], resize_scale lib face (srScale args) (srScale args))
           else ([], Inr face))"

text \<open>Lines 196--203: sharpening, contrast equalisation and denoising.\<close>

definition toneEnhance :: "cvlib \<Rightarrow> Args \<Rightarrow> vec3b mat \<Rightarrow> vec3b mat" where
  "toneEnhance lib args face =
     (let face1 = unsharpMask lib face (sharpenAmount args);
          face2 = enhanceLumaCLAHE lib face1
      in face2\<lparr>m_at := cv_fastNlMeansDenoisingColored lib face2\<rparr>)"

text \<open>
  The outcome of a run: the exit code or the exception that nobody catches, the lines
  written to \<^verbatim>\<open>cerr\<close> and \<^verbatim>\<open>cout\<close>, the path and image handed to \<^verbatim>\<open>imwrite\<close>, and
  the heap at the end.
\<close>

datatype status = Exit int | Uncaught cv_exception

record outcome =
  o_status :: status
  o_cerr :: "string list"
  o_cout :: "string list"
  o_imwrite :: "(string \<times> vec3b mat) option"
  o_heap :: heap

text \<open>Lines 145--147: grey conversion and histogram equalisation.\<close>

definition equalizedGray :: "cvlib \<Rightarrow> vec3b mat \<Rightarrow> uchar mat" where
  "equalizedGray lib img =
     (let gray = \<lparr>m_rows = m_rows img, m_cols = m_cols img, m_at = \<lambda>y x. cv_BGR2GRAY lib (m_at img y x)\<rparr>
      in gray\<lparr>m_at := cv_equalizeHist lib gray\<rparr>)"

text \<open>Lines 144--149: detection and selection of the largest candidate.\<close>

definition detectFace :: "cvlib \<Rightarrow> vec3b mat \<Rightarrow> rect" where
  "detectFace lib img = pickLargest (cv_detectMultiScale lib (equalizedGray lib img))"

text \<open>
  \<^verbatim>\<open>main\<close> after \<^verbatim>\<open>parseArgs\<close> has succeeded. \<^verbatim>\<open>img\<close> is the first buffer of the heap,
  \<^verbatim>\<open>result\<close> the clone made in line 209.
\<close>

definition main :: "cvlib \<Rightarrow> Args \<Rightarrow> outcome" where
  "main lib args =
     (let (img, h1) = mat_alloc heap0 (cv_imread lib (inputPath args))
      in if mat_empty (mat_load h1 img)
         then \<lparr>o_status = Exit 2,
               o_cerr = [''Failed to read input image: '' @ inputPath args],
               o_cout = [], o_imwrite = None, o_heap = h1\<rparr>
         else if \<not> cv_cascade_load lib (cascadePath args)
         then \<lparr>o_status = Exit 3,
               o_cerr = [''Failed to load cascade: '' @ cascadePath args],
               o_cout = [], o_imwrite = None, o_heap = h1\<rparr>
         else
           let faceRect = detectFace lib (mat_load h1 img)
           in if area faceRect = 0
              then \<lparr>o_status = Exit 0,
                    o_cerr = [''No face detected. Saving original to output.''],
                    o_cout = [], o_imwrite = Some (outputPath args, mat_load h1 img), o_heap = h1\<rparr>
              else
                let roi = expandRoi faceRect (mr_cols img) (mr_rows img)
                in case mat_roi img roi of
                     Inl e \<Rightarrow> \<lparr>o_status = Uncaught e, o_cerr = [], o_cout = [],
                               o_imwrite = None, o_heap = h1\<rparr>
                   | Inr view \<Rightarrow>
                       let (diag, sr) = superResolution lib args (mat_load h1 view)
                       in case sr of
                            Inl e \<Rightarrow> \<lparr>o_status = Uncaught e, o_cerr = diag, o_cout = [],
                                      o_imwrite = None, o_heap = h1\<rparr>
                          | Inr face \<Rightarrow>
                              (case resize_dsize lib (toneEnhance lib args face)
                                      (r_width roi) (r_height roi) of
                                 Inl e \<Rightarrow> \<lparr>o_status = Uncaught e, o_cerr = diag, o_cout = [],
                                           o_imwrite = None, o_heap = h1\<rparr>
                               | Inr faceBack \<Rightarrow>
                                   let (result, h2) = mat_clone h1 img
                                   in case pasteWithFeather lib faceBack roi result h2 of
                                        Inl e \<Rightarrow> \<lparr>o_status = Uncaught e, o_cerr = diag, o_cout = [],
                                                  o_imwrite = None, o_heap = h2\<rparr>
                                      | Inr h3 \<Rightarrow>
                                          if \<not> cv_imwrite lib (outputPath args) (mat_load h3 result)
                                          then \<lparr>o_status = Exit 4,
                                                o_cerr = diag @ [''Failed to write output: '' @ outputPath args],
                                                o_cout = [],
                                                o_imwrite = Some (outputPath args, mat_load h3 result),
                                                o_heap = h3\<rparr>
                                          else \<lparr>o_status = Exit 0, o_cerr = diag,
                                                o_cout = [''Saved: '' @ outputPath args],
                                                o_imwrite = Some (outputPath args, mat_load h3 result),
                                                o_heap = h3\<rparr>))"

section \<open>Notions used to state the properties\<close>

text \<open>The pixels of \<^verbatim>\<open>img(roi)\<close> as an image value.\<close>

definition crop :: "vec3b mat \<Rightarrow> rect \<Rightarrow> vec3b mat" where
  "crop v roi = \<lparr>m_rows = r_height roi, m_cols = r_width roi,
                  m_at = \<lambda>y x. m_at v (r_y roi + y) (r_x roi + x)\<rparr>"

text \<open>Channel \<open>c\<close> of a pixel, and the clipping to the 8-bit range.\<close>

fun chan :: "nat \<Rightarrow> 'a \<times> 'a \<times> 'a \<Rightarrow> 'a" where
  "chan c (b, g, r) = (if c = 0 then b else if c = 1 then g else r)"

definition clip255 :: "int \<Rightarrow> int" where
  "clip255 v = max 0 (min 255 v)"

section \<open>The end-to-end scenarios as concrete inputs\<close>

text \<open>
  A 400 x 400 image of one colour, a detector that reports the face
  \<open>(100, 100, 100, 120)\<close>, filters that return their input, a nearest-neighbour
  resampling, a box kernel, and a model file that cannot be read. \<open>model_lib\<close> replaces
  the unreadable model by one that upsamples by the integer scale it is given.
\<close>

definition scenario_img :: "vec3b mat" where
  "scenario_img = \<lparr>m_rows = 400, m_cols = 400, m_at = \<lambda>y x. (200, 0, 0)\<rparr>"

definition scenario_face :: rect where
  "scenario_face = \<lparr>r_x = 100, r_y = 100, r_width = 100, r_height = 120\<rparr>"

definition scenario_lib :: cvlib where
  "scenario_lib =
     \<lparr>cv_imread = \<lambda>path. scenario_img,
      cv_cascade_load = \<lambda>path. True,
      cv_BGR2GRAY = \<lambda>p. fst (snd p),
      cv_equalizeHist = m_at,
      cv_detectMultiScale = \<lambda>gray. [scenario_face],
      cv_resize_cubic = \<lambda>src w h y x. m_at src (y * m_rows src div h) (x * m_cols src div w),
      cv_dnn_upsample = \<lambda>path algo n face. Inl ''malformed model'',
      cv_GaussianBlur = \<lambda>src k. m_at src,
      cv_BGR2YCrCb = \<lambda>p. p,
      cv_YCrCb2BGR = \<lambda>p. p,
      cv_clahe_apply = m_at,
      cv_fastNlMeansDenoisingColored = m_at,
      cv_getGaussianKernel = \<lambda>ksize sigma. replicate (nat ksize) (1 / of_int ksize),
      cv_imwrite = \<lambda>path img. True\<rparr>"

definition scenarioA_args :: Args where
  "scenarioA_args =
     \<lparr>inputPath = ''in.png'', outputPath = ''enhanced.png'',
      cascadePath = ''haarcascade_frontalface_default.xml'',
      srModelPath = [], srScale = 1, sharpenAmount = 1\<rparr>"

definition scenarioC_args :: Args where
  "scenarioC_args = scenarioA_args\<lparr>srModelPath := ''bad.pb'', srScale := 2\<rparr>"

definition model_lib :: cvlib where
  "model_lib = scenario_lib\<lparr>cv_dnn_upsample := \<lambda>path algo n face.
      Inr \<lparr>m_rows = m_rows face * n, m_cols = m_cols face * n,
           m_at = \<lambda>y x. m_at face (y div n) (x div n)\<rparr>\<rparr>"

definition model_args :: Args where
  "model_args = scenarioA_args\<lparr>srModelPath := ''EDSR_x2.pb'', srScale := 15 / 10\<rparr>"

text \<open>
  A 123 x 123 face, whose sides times 1.5 end in one half; the scenario without a
  model at scale 1.5; and a library whose model returns a 1 x 1 image.
\<close>

definition odd_face :: "vec3b mat" where
  "odd_face = \<lparr>m_rows = 123, m_cols = 123, m_at = \<lambda>y x. (200, 0, 0)\<rparr>"

definition shrink_lib :: cvlib where
  "shrink_lib = scenario_lib\<lparr>cv_dnn_upsample := \<lambda>path algo n face.
      Inr \<lparr>m_rows = 1, m_cols = 1, m_at = m_at face\<rparr>\<rparr>"

definition bicubic_args :: Args where
  "bicubic_args = scenarioA_args\<lparr>srScale := 15 / 10\<rparr>"

section \<open>Selection of the largest candidate\<close>

lemma pickLargest_loop_inv:
  assumes "best < i" "i \<le> length rects"
    and "\<forall>j<i. area (rects ! j) \<le> area (rects ! best)"
    and "\<forall>j<best. area (rects ! j) < area (rects ! best)"
  shows "pickLargest_loop rects i best < length rects \<and>
         (\<forall>j<length rects. area (rects ! j) \<le> area (rects ! pickLargest_loop rects i best)) \<and>
         (\<forall>j<pickLargest_loop rects i best.
             area (rects ! j) < area (rects ! pickLargest_loop rects i best))"
  using assms
proof (induction rects i best rule: pickLargest_loop.induct)
  case (1 rects i best)
  show ?case
  proof (cases "i < length rects")
    case False
    then have stop: "pickLargest_loop rects i best = best"
      by (simp add: pickLargest_loop.simps [of rects i best])
    from False "1.prems" have "i = length rects" by simp
    with "1.prems" show ?thesis
      unfolding stop by simp
  next
    case True
    let ?b = "if area (rects ! i) > area (rects ! best) then i else best"
    have step: "pickLargest_loop rects i best = pickLargest_loop rects (Suc i) ?b"
      using True by (simp add: pickLargest_loop.simps [of rects i best])
    have b1: "?b < Suc i" using "1.prems"(1) by simp
    have b2: "Suc i \<le> length rects" using True by simp
    have b3: "\<forall>j<Suc i. area (rects ! j) \<le> area (rects ! ?b)"
    proof (intro allI impI)
      fix j assume "j < Suc i"
      then consider "j < i" | "j = i" by linarith
      then show "area (rects ! j) \<le> area (rects ! ?b)"
      proof cases
        case 1
        then have "area (rects ! j) \<le> area (rects ! best)" using "1.prems"(3) by simp
        then show ?thesis by simp
      next
        case 2
        then show ?thesis by simp
      qed
    qed
    have b4: "\<forall>j<?b. area (rects ! j) < area (rects ! ?b)"
    proof (intro allI impI)
      fix j assume j: "j < ?b"
      show "area (rects ! j) < area (rects ! ?b)"
      proof (cases "area (rects ! i) > area (rects ! best)")
        case True
        with j have "j < i" by simp
        then have "area (rects ! j) \<le> area (rects ! best)" using "1.prems"(3) by simp
        with True show ?thesis by simp
      next
        case False
        with j have "j < best" by simp
        with "1.prems"(4) False show ?thesis by simp
      qed
    qed
    from "1.IH" [OF True b1 b2 b3 b4] show ?thesis
      unfolding step .
  qed
qed

text \<open>
  Claim C10. For the empty candidate set \<^verbatim>\<open>pickLargest\<close> returns the zero-area sentinel;
  otherwise it returns the candidate at some index \<open>i\<close> whose area \<open>width * height\<close> is
  maximal among all candidates, and every candidate before \<open>i\<close> in the detector's output
  order has a strictly smaller area: among candidates of equal maximal area the first one
  encountered wins.
\<close>

theorem pickLargest_first_maximal:
  "(rects = [] \<longrightarrow> pickLargest rects = Rect0 \<and> area (pickLargest rects) = 0) \<and>
   (rects \<noteq> [] \<longrightarrow>
      (\<exists>i<length rects. pickLargest rects = rects ! i \<and>
         (\<forall>j<length rects. r_width (rects ! j) * r_height (rects ! j)
                              \<le> r_width (rects ! i) * r_height (rects ! i)) \<and>
         (\<forall>j<i. r_width (rects ! j) * r_height (rects ! j)
                   < r_width (rects ! i) * r_height (rects ! i))))"
proof (intro conjI impI)
  assume "rects = []"
  then show "pickLargest rects = Rect0" by (simp add: pickLargest_def)
next
  assume "rects = []"
  then show "area (pickLargest rects) = 0" by (simp add: pickLargest_def Rect0_def area_def)
next
  assume ne: "rects \<noteq> []"
  then have len: "Suc 0 \<le> length rects" by (cases rects) simp_all
  have "(0::nat) < 1" by simp
  moreover have "1 \<le> length rects" using len by simp
  moreover have "\<forall>j<1. area (rects ! j) \<le> area (rects ! 0)" by simp
  moreover have "\<forall>j<(0::nat). area (rects ! j) < area (rects ! 0)" by simp
  ultimately have inv:
    "pickLargest_loop rects 1 0 < length rects \<and>
     (\<forall>j<length rects. area (rects ! j) \<le> area (rects ! pickLargest_loop rects 1 0)) \<and>
     (\<forall>j<pickLargest_loop rects 1 0.
         area (rects ! j) < area (rects ! pickLargest_loop rects 1 0))"
    by (rule pickLargest_loop_inv)
  show "\<exists>i<length rects. pickLargest rects = rects ! i \<and>
         (\<forall>j<length rects. r_width (rects ! j) * r_height (rects ! j)
                              \<le> r_width (rects ! i) * r_height (rects ! i)) \<and>
         (\<forall>j<i. r_width (rects ! j) * r_height (rects ! j)
                   < r_width (rects ! i) * r_height (rects ! i))"
    using inv ne unfolding area_def pickLargest_def
    by (intro exI [of _ "pickLargest_loop rects 1 0"]) simp
qed

theorem pickLargest_first_maximal_witness:
  "pickLargest [] = Rect0 \<and>
   pickLargest [\<lparr>r_x = 0, r_y = 0, r_width = 50, r_height = 50\<rparr>,
                \<lparr>r_x = 10, r_y = 10, r_width = 60, r_height = 60\<rparr>,
                \<lparr>r_x = 5, r_y = 5, r_width = 60, r_height = 60\<rparr>]
     = \<lparr>r_x = 10, r_y = 10, r_width = 60, r_height = 60\<rparr>"
proof
  show "pickLargest [] = Rect0"
    using pickLargest_first_maximal [of "[]"] by simp
next
  let ?A = "\<lparr>r_x = 0, r_y = 0, r_width = 50, r_height = 50\<rparr>"
  let ?B = "\<lparr>r_x = 10, r_y = 10, r_width = 60, r_height = 60\<rparr>"
  let ?C = "\<lparr>r_x = 5, r_y = 5, r_width = 60, r_height = 60\<rparr>"
  let ?rs = "[?A, ?B, ?C]"
  have ne: "?rs \<noteq> []" by simp
  from pickLargest_first_maximal [of ?rs, THEN conjunct2, THEN mp, OF ne]
  obtain i where i: "i < length ?rs" "pickLargest ?rs = ?rs ! i"
    and mx: "\<forall>j<length ?rs. r_width (?rs ! j) * r_height (?rs ! j)
                \<le> r_width (?rs ! i) * r_height (?rs ! i)"
    and fst: "\<forall>j<i. r_width (?rs ! j) * r_height (?rs ! j)
                < r_width (?rs ! i) * r_height (?rs ! i)"
    by blast
  from i(1) have "i = 0 \<or> i = 1 \<or> i = 2" by auto
  then consider "i = 0" | "i = 1" | "i = 2" by blast
  then show "pickLargest ?rs = ?B"
  proof cases
    case 1
    with mx [rule_format, of 1] show ?thesis by simp
  next
    case 2
    with i(2) show ?thesis by simp
  next
    case 3
    with fst [rule_format, of 1] show ?thesis by simp
  qed
qed

lemma pickLargest_Nil [simp]: "pickLargest [] = Rect0"
  by (simp add: pickLargest_def)

lemma pickLargest_single [simp]: "pickLargest [r] = r"
  by (simp add: pickLargest_def pickLargest_loop.simps [of "[r]" "Suc 0" 0])

section \<open>Expansion of the detected rectangle\<close>

lemma sdiv_pos_eq_div: "0 \<le> a \<Longrightarrow> 0 < b \<Longrightarrow> a sdiv b = a div (b::int)"
  by (simp add: signed_divide_int_def sgn_if)

lemma expandRoi_fields:
  assumes "0 < r_width f" "0 < r_height f"
  shows "r_x (expandRoi f cols rows) = max 0 (r_x f - r_width f div 8)"
    and "r_y (expandRoi f cols rows) = max 0 (r_y f - r_height f div 6)"
    and "r_width (expandRoi f cols rows) =
           min (r_width f + 2 * (r_width f div 8)) (cols - max 0 (r_x f - r_width f div 8))"
    and "r_height (expandRoi f cols rows) =
           min (r_height f + 2 * (r_height f div 6)) (rows - max 0 (r_y f - r_height f div 6))"
  using assms by (simp_all add: expandRoi_def Let_def sdiv_pos_eq_div)

lemma expandRoi_rect_inv:
  assumes "rect_inv f cols rows"
  shows "rect_inv (expandRoi f cols rows) cols rows"
proof -
  from assms have w: "0 < r_width f" and h: "0 < r_height f"
    and x: "0 \<le> r_x f" and y: "0 \<le> r_y f"
    and xr: "r_x f + r_width f \<le> cols" and yb: "r_y f + r_height f \<le> rows"
    by (simp_all add: rect_inv_def)
  have px: "0 \<le> r_width f div 8" using w by simp
  have py: "0 \<le> r_height f div 6" using h by simp
  note flds = expandRoi_fields [OF w h, of cols rows]
  show ?thesis
    unfolding rect_inv_def flds using w h x y xr yb px py by auto
qed

text \<open>
  Claim C7. For a detected rectangle that is non-degenerate and lies inside the image
  (\<open>rect_inv\<close>), the expanded rectangle again satisfies the Rect invariant
  (\<open>x, y \<ge> 0\<close>, \<open>x + width \<le> cols\<close>, \<open>y + height \<le> rows\<close>, \<open>width, height > 0\<close>) and
  contains the detected rectangle.
\<close>

theorem expandRoi_inv_contains:
  assumes "rect_inv f cols rows"
  shows "rect_inv (expandRoi f cols rows) cols rows \<and> rect_contains (expandRoi f cols rows) f"
proof -
  from assms have w: "0 < r_width f" and h: "0 < r_height f"
    and x: "0 \<le> r_x f" and y: "0 \<le> r_y f"
    and xr: "r_x f + r_width f \<le> cols" and yb: "r_y f + r_height f \<le> rows"
    by (simp_all add: rect_inv_def)
  have px: "0 \<le> r_width f div 8" using w by simp
  have py: "0 \<le> r_height f div 6" using h by simp
  note flds = expandRoi_fields [OF w h, of cols rows]
  have "rect_contains (expandRoi f cols rows) f"
    unfolding rect_contains_def flds using w h x y xr yb px py by auto
  with expandRoi_rect_inv [OF assms] show ?thesis ..
qed

theorem expandRoi_inv_contains_witness:
  "rect_inv \<lparr>r_x = 100, r_y = 100, r_width = 100, r_height = 120\<rparr> 400 400 \<and>
   expandRoi \<lparr>r_x = 100, r_y = 100, r_width = 100, r_height = 120\<rparr> 400 400
     = \<lparr>r_x = 88, r_y = 80, r_width = 124, r_height = 160\<rparr> \<and>
   rect_inv \<lparr>r_x = 88, r_y = 80, r_width = 124, r_height = 160\<rparr> 400 400 \<and>
   rect_contains \<lparr>r_x = 88, r_y = 80, r_width = 124, r_height = 160\<rparr>
                 \<lparr>r_x = 100, r_y = 100, r_width = 100, r_height = 120\<rparr>"
proof -
  let ?f = "\<lparr>r_x = 100, r_y = 100, r_width = 100, r_height = 120\<rparr>"
  have hyp: "rect_inv ?f 400 400" by (simp add: rect_inv_def)
  have val: "expandRoi ?f 400 400 = \<lparr>r_x = 88, r_y = 80, r_width = 124, r_height = 160\<rparr>"
    by (simp add: expandRoi_def Let_def sdiv_pos_eq_div)
  from expandRoi_inv_contains [OF hyp] hyp val show ?thesis by simp
qed

text \<open>
  Claim C8. The ROI computed in \<^verbatim>\<open>main\<close> is the detected rectangle padded by
  \<open>width / 8\<close> per side horizontally and \<open>height / 6\<close> per side vertically, clamped by
  shifting the origin to at least \<open>0\<close> and min-capping each extent against the space
  remaining behind the shifted origin. Where no clamping applies, the four edges move
  outwards by exactly \<open>width / 8\<close> (left, right) and \<open>height / 6\<close> (top, bottom).
\<close>

theorem expandRoi_pad_clamp:
  "expandRoi f cols rows = spec_clamp (spec_pad f) cols rows \<and>
   (0 \<le> r_x (spec_pad f) \<and> 0 \<le> r_y (spec_pad f) \<and>
    r_x (spec_pad f) + r_width (spec_pad f) \<le> cols \<and>
    r_y (spec_pad f) + r_height (spec_pad f) \<le> rows \<longrightarrow>
      r_x f - r_x (expandRoi f cols rows) = r_width f sdiv 8 \<and>
      (r_x (expandRoi f cols rows) + r_width (expandRoi f cols rows)) - (r_x f + r_width f)
         = r_width f sdiv 8 \<and>
      r_y f - r_y (expandRoi f cols rows) = r_height f sdiv 6 \<and>
      (r_y (expandRoi f cols rows) + r_height (expandRoi f cols rows)) - (r_y f + r_height f)
         = r_height f sdiv 6)"
proof
  show eq: "expandRoi f cols rows = spec_clamp (spec_pad f) cols rows"
    by (simp add: expandRoi_def spec_clamp_def spec_pad_def Let_def add.commute)
  show "0 \<le> r_x (spec_pad f) \<and> 0 \<le> r_y (spec_pad f) \<and>
    r_x (spec_pad f) + r_width (spec_pad f) \<le> cols \<and>
    r_y (spec_pad f) + r_height (spec_pad f) \<le> rows \<longrightarrow>
      r_x f - r_x (expandRoi f cols rows) = r_width f sdiv 8 \<and>
      (r_x (expandRoi f cols rows) + r_width (expandRoi f cols rows)) - (r_x f + r_width f)
         = r_width f sdiv 8 \<and>
      r_y f - r_y (expandRoi f cols rows) = r_height f sdiv 6 \<and>
      (r_y (expandRoi f cols rows) + r_height (expandRoi f cols rows)) - (r_y f + r_height f)
         = r_height f sdiv 6"
    unfolding eq by (auto simp: spec_clamp_def spec_pad_def)
qed

theorem expandRoi_pad_clamp_witness:
  "expandRoi \<lparr>r_x = 100, r_y = 100, r_width = 100, r_height = 120\<rparr> 400 400
     = spec_clamp (spec_pad \<lparr>r_x = 100, r_y = 100, r_width = 100, r_height = 120\<rparr>) 400 400 \<and>
   r_x (expandRoi \<lparr>r_x = 100, r_y = 100, r_width = 100, r_height = 120\<rparr> 400 400) = 100 - 12 \<and>
   r_x (expandRoi \<lparr>r_x = 100, r_y = 100, r_width = 100, r_height = 120\<rparr> 400 400) +
   r_width (expandRoi \<lparr>r_x = 100, r_y = 100, r_width = 100, r_height = 120\<rparr> 400 400)
     = 100 + 100 + 12 \<and>
   r_y (expandRoi \<lparr>r_x = 100, r_y = 100, r_width = 100, r_height = 120\<rparr> 400 400) = 100 - 20 \<and>
   r_y (expandRoi \<lparr>r_x = 100, r_y = 100, r_width = 100, r_height = 120\<rparr> 400 400) +
   r_height (expandRoi \<lparr>r_x = 100, r_y = 100, r_width = 100, r_height = 120\<rparr> 400 400)
     = 100 + 120 + 20"
proof -
  let ?f = "\<lparr>r_x = 100, r_y = 100, r_width = 100, r_height = 120\<rparr>"
  have pad: "spec_pad ?f = \<lparr>r_x = 88, r_y = 80, r_width = 124, r_height = 160\<rparr>"
    by (simp add: spec_pad_def sdiv_pos_eq_div)
  have d: "r_width ?f sdiv 8 = 12" "r_height ?f sdiv 6 = 20"
    by (simp_all add: sdiv_pos_eq_div)
  from expandRoi_pad_clamp [of ?f 400 400] show ?thesis
    unfolding pad d by (simp add: spec_clamp_def)
qed

section \<open>Rounding and saturation\<close>

lemma cvRound_of_int [simp]: "cvRound (of_int n) = n"
  by (simp add: cvRound_def Let_def)

lemma cvRound_numeral [simp]: "cvRound (numeral n) = numeral n"
  using cvRound_of_int [of "numeral n"] by simp

lemma cvRound_zero [simp]: "cvRound 0 = 0"
  using cvRound_of_int [of 0] by simp

lemma cvRound_nearest: "\<bar>of_int (cvRound v) - v\<bar> \<le> 1 / 2"
proof -
  define f where "f = \<lfloor>v\<rfloor>"
  have fl: "of_int f \<le> v" "v < of_int f + 1" unfolding f_def by linarith+
  consider "v - of_int f < 1 / 2" | "v - of_int f > 1 / 2" | "v - of_int f = 1 / 2"
    by linarith
  then show ?thesis
  proof cases
    case 1
    then have "cvRound v = f" by (simp add: cvRound_def Let_def f_def)
    with 1 fl show ?thesis by simp
  next
    case 2
    then have "cvRound v = f + 1" by (simp add: cvRound_def Let_def f_def)
    with 2 fl show ?thesis by simp
  next
    case 3
    then have "cvRound v = f \<or> cvRound v = f + 1" by (simp add: cvRound_def Let_def f_def)
    with 3 fl show ?thesis by auto
  qed
qed

lemma cvRound_ge_floor: "\<lfloor>v\<rfloor> \<le> cvRound v"
  by (simp add: cvRound_def Let_def)

lemma cvRound_ge: "of_int n \<le> v \<Longrightarrow> n \<le> cvRound v"
  using cvRound_ge_floor [of v] le_floor_iff [of n v] by linarith

lemma cvRound_unsigned [simp]: "cvRound (unsigned (c::'a::len word)) = uint c"
  using cvRound_of_int [of "uint c"] by simp

lemma unat_saturate_uchar: "unat (saturate_uchar v) = nat (max 0 (min 255 v))"
proof -
  have "unat (word_of_int v :: 8 word) = nat v" if "0 \<le> v" "v \<le> 255"
  proof -
    have "uint (word_of_int v :: 8 word) = take_bit 8 v" by (simp add: uint_word_of_int_eq)
    also have "\<dots> = v" using that by (simp add: take_bit_int_eq_self)
    finally show ?thesis by (simp add: unat_eq_nat_uint)
  qed
  then show ?thesis
    by (auto simp: saturate_uchar_def max_def min_def)
qed

lemma saturate_uchar_uint [simp]: "saturate_uchar (uint (c::uchar)) = c"
proof -
  have "uint c < 256" using uint_lt2p [of c] by simp
  then show ?thesis by (simp add: saturate_uchar_def)
qed

lemma saturate_uchar_zero [simp]: "saturate_uchar 0 = 0"
  by (simp add: saturate_uchar_def)

lemma chan_zip3: "chan c (zip3 f p q) = f (chan c p) (chan c q)"
  by (cases p; cases q) simp

lemma uint_saturate_uchar: "uint (saturate_uchar v) = clip255 v"
  by (simp only: uint_nat unat_saturate_uchar clip255_def)

lemma addWeighted_at:
  "m_at (addWeighted src al blurred be g) y x =
     zip3 (\<lambda>a b. saturate_uchar (cvRound (real (unat a) * al + real (unat b) * be + g)))
          (m_at src y x) (m_at blurred y x)"
  by (simp add: addWeighted_def)

lemma addWeighted_chan:
  "uint (chan c (m_at (addWeighted src al blurred be 0) y x)) =
     clip255 (cvRound (real (unat (chan c (m_at src y x))) * al
                       + real (unat (chan c (m_at blurred y x))) * be))"
  unfolding addWeighted_at chan_zip3 uint_saturate_uchar by simp

section \<open>The feather mask\<close>

lemma borderInterpolate_range:
  "0 < len \<Longrightarrow> 0 \<le> borderInterpolate p len \<and> borderInterpolate p len < len"
proof (induction p len rule: borderInterpolate.induct)
  case (1 p len)
  show ?case
  proof (cases "0 \<le> p \<and> p < len")
    case True
    then show ?thesis by (simp add: borderInterpolate.simps [of p len])
  next
    case out: False
    show ?thesis
    proof (cases "len \<le> 1")
      case True
      with out "1.prems" show ?thesis by (simp add: borderInterpolate.simps [of p len])
    next
      case False
      with out "1.IH" "1.prems" show ?thesis
        by (simp add: borderInterpolate.simps [of p len])
    qed
  qed
qed

lemma sum_list_nth_scaled:
  "(\<Sum>j\<leftarrow>[0..<length k]. k ! j * (c::real)) = sum_list k * c"
proof -
  have "(\<Sum>j\<leftarrow>[0..<length k]. k ! j * c) = (\<Sum>j\<leftarrow>[0..<length k]. k ! j) * c"
    by (simp add: sum_list_mult_const)
  also have "map (\<lambda>j. k ! j) [0..<length k] = k" by (rule map_nth)
  finally show ?thesis .
qed

lemma sepFilter2D_constant:
  assumes "0 < m_rows src" "0 < m_cols src"
    and "\<forall>y x. 0 \<le> y \<and> y < m_rows src \<and> 0 \<le> x \<and> x < m_cols src \<longrightarrow> m_at src y x = c"
  shows "m_at (sepFilter2D src kx ky) y x = sum_list ky * (sum_list kx * c)"
    and "m_rows (sepFilter2D src kx ky) = m_rows src"
    and "m_cols (sepFilter2D src kx ky) = m_cols src"
proof -
  have rd: "m_at src (borderInterpolate p (m_rows src)) (borderInterpolate q (m_cols src)) = c" for p q
    using assms(3) borderInterpolate_range [OF assms(1), of p] borderInterpolate_range [OF assms(2), of q]
    by blast
  show "m_at (sepFilter2D src kx ky) y x = sum_list ky * (sum_list kx * c)"
    by (simp add: sepFilter2D_def Let_def rd sum_list_nth_scaled)
  show "m_rows (sepFilter2D src kx ky) = m_rows src" by (simp add: sepFilter2D_def Let_def)
  show "m_cols (sepFilter2D src kx ky) = m_cols src" by (simp add: sepFilter2D_def Let_def)
qed

lemma mat_values_constant:
  assumes "0 < m_rows m" "0 < m_cols m"
    and "\<forall>y x. m_at m y x = c"
  shows "set (mat_values m) = {c}"
proof -
  have r: "(0::int) \<in> {0..m_rows m - 1}" using assms(1) by simp
  have cl: "(0::int) \<in> {0..m_cols m - 1}" using assms(2) by simp
  have "set (mat_values m) = (\<Union>y\<in>{0..m_rows m - 1}. (\<lambda>x. c) ` {0..m_cols m - 1})"
    by (simp add: mat_values_def assms(3))
  also have "\<dots> = (\<Union>y\<in>{0..m_rows m - 1}. {c})"
    by (simp only: image_constant [OF cl])
  also have "\<dots> = {c}" using r by blast
  finally show ?thesis .
qed

lemma featherMask_zero:
  assumes "0 < width" "0 < height"
  shows "m_at (featherMask lib width height radius) y x = 0"
    and "m_rows (featherMask lib width height radius) = height"
    and "m_cols (featherMask lib width height radius) = width"
proof -
  let ?mask = "\<lparr>m_rows = height, m_cols = width, m_at = \<lambda>y x. (1::real)\<rparr>"
  let ?k = "cv_getGaussianKernel lib (max 1 radius * 2 + 1) (of_int (max 1 radius))"
  let ?g = "sepFilter2D ?mask ?k ?k"
  have a: "\<forall>y x. m_at ?g y x = sum_list ?k * (sum_list ?k * 1)"
    using sepFilter2D_constant(1) [of ?mask 1 ?k ?k] assms by simp
  have dims: "m_rows ?g = height" "m_cols ?g = width"
    by (simp_all add: sepFilter2D_def Let_def)
  have vals: "set (mat_values ?g) = {sum_list ?k * (sum_list ?k * 1)}"
    by (rule mat_values_constant) (use a dims assms in simp_all)
  have fm: "featherMask lib width height radius = normalize_minmax ?g 0 1"
    by (simp add: featherMask_def Let_def)
  show "m_at (featherMask lib width height radius) y x = 0"
    unfolding fm by (simp add: normalize_minmax_def Let_def vals DBL_EPSILON_def)
  show "m_rows (featherMask lib width height radius) = height"
    unfolding fm by (simp add: normalize_minmax_def Let_def dims)
  show "m_cols (featherMask lib width height radius) = width"
    unfolding fm by (simp add: normalize_minmax_def Let_def dims)
qed

section \<open>Compositing\<close>

lemma pasteWithFeather_cases:
  assumes "pasteWithFeather lib face roi canvas h = Inr h'"
  obtains dstROI resized where
    "mat_roi canvas roi = Inr dstROI"
    "resize_dsize lib face (r_width roi) (r_height roi) = Inr resized"
    "0 < r_width roi" "0 < r_height roi"
    "h' = mat_store h dstROI (feather_blend lib roi resized (mat_load h dstROI))"
proof -
  from assms obtain dstROI where d: "mat_roi canvas roi = Inr dstROI"
    by (auto simp: pasteWithFeather_def split: sum.splits)
  from assms d obtain resized where r: "resize_dsize lib face (r_width roi) (r_height roi) = Inr resized"
    by (auto simp: pasteWithFeather_def split: sum.splits)
  from r have pos: "0 < r_width roi" "0 < r_height roi"
    by (auto simp: resize_dsize_def split: if_splits)
  from assms d r
  have "h' = mat_store h dstROI (feather_blend lib roi resized (mat_load h dstROI))"
    by (simp add: pasteWithFeather_def)
  with d r pos show thesis by (rule that)
qed

lemma mat_roi_Inr:
  "mat_roi m roi = Inr v \<Longrightarrow>
     v = \<lparr>mr_buf = mr_buf m, mr_y0 = mr_y0 m + r_y roi, mr_x0 = mr_x0 m + r_x roi,
          mr_rows = r_height roi, mr_cols = r_width roi\<rparr>"
  by (auto simp: mat_roi_def split: if_splits)

lemma feather_blend_at:
  assumes "0 < r_width roi" "0 < r_height roi"
  shows "m_at (feather_blend lib roi resized dst) y x = (fst (m_at dst y x), 0, 0)"
proof -
  note z = featherMask_zero(1) [OF assms]
  obtain b g r where px: "m_at dst y x = (b, g, r)" by (cases "m_at dst y x")
  obtain b' g' r' where px': "m_at resized y x = (b', g', r')" by (cases "m_at resized y x")
  show ?thesis by (simp add: feather_blend_def Let_def z px px')
qed

lemma pasteWithFeather_frame:
  assumes "pasteWithFeather lib face roi canvas h = Inr h'"
  shows "h_next h' = h_next h"
    and "a \<noteq> mr_buf canvas \<Longrightarrow> h_data h' a = h_data h a"
    and "\<not> inside roi y x \<Longrightarrow> m_at (mat_load h' canvas) y x = m_at (mat_load h canvas) y x"
    and "m_rows (mat_load h' canvas) = m_rows (mat_load h canvas)"
    and "m_cols (mat_load h' canvas) = m_cols (mat_load h canvas)"
proof -
  obtain dstROI resized where d: "mat_roi canvas roi = Inr dstROI"
    and h': "h' = mat_store h dstROI (feather_blend lib roi resized (mat_load h dstROI))"
    by (rule pasteWithFeather_cases [OF assms])
  note v = mat_roi_Inr [OF d]
  show "h_next h' = h_next h" by (simp add: h' mat_store_def)
  show "h_data h' a = h_data h a" if "a \<noteq> mr_buf canvas"
    using that by (simp add: h' mat_store_def v)
  show "m_at (mat_load h' canvas) y x = m_at (mat_load h canvas) y x" if "\<not> inside roi y x"
    using that by (auto simp: h' mat_store_def v mat_load_def inside_def)
  show "m_rows (mat_load h' canvas) = m_rows (mat_load h canvas)" by (simp add: mat_load_def)
  show "m_cols (mat_load h' canvas) = m_cols (mat_load h canvas)" by (simp add: mat_load_def)
qed

lemma pasteWithFeather_inside:
  assumes "pasteWithFeather lib face roi canvas h = Inr h'" and "inside roi y x"
  shows "m_at (mat_load h' canvas) y x = (fst (m_at (mat_load h canvas) y x), 0, 0)"
proof -
  obtain dstROI resized where d: "mat_roi canvas roi = Inr dstROI"
    and pos: "0 < r_width roi" "0 < r_height roi"
    and h': "h' = mat_store h dstROI (feather_blend lib roi resized (mat_load h dstROI))"
    by (rule pasteWithFeather_cases [OF assms(1)])
  note v = mat_roi_Inr [OF d]
  from assms(2) show ?thesis
    by (simp add: h' mat_store_def v mat_load_def inside_def feather_blend_at [OF pos] algebra_simps)
qed

lemma pasteWithFeather_succeeds:
  assumes "rect_inv roi (mr_cols canvas) (mr_rows canvas)" and "\<not> mat_empty face"
  shows "\<exists>h'. pasteWithFeather lib face roi canvas h = Inr h'"
  using assms
  by (simp add: pasteWithFeather_def mat_roi_def resize_dsize_def rect_inv_def)

section \<open>Runs of the program\<close>

lemma mat_load_alloc [simp]: "mat_load (snd (mat_alloc h v)) (fst (mat_alloc h v)) = v"
  by (simp add: mat_load_def mat_alloc_def)

lemma main_no_face:
  assumes "\<not> mat_empty (cv_imread lib (inputPath args))"
    and "cv_cascade_load lib (cascadePath args)"
    and "area (detectFace lib (cv_imread lib (inputPath args))) = 0"
  shows "main lib args =
     \<lparr>o_status = Exit 0, o_cerr = [''No face detected. Saving original to output.''],
      o_cout = [], o_imwrite = Some (outputPath args, cv_imread lib (inputPath args)),
      o_heap = snd (mat_alloc heap0 (cv_imread lib (inputPath args)))\<rparr>"
  using assms by (simp add: main_def split_beta Let_def)

lemma toneEnhance_dims [simp]:
  "m_rows (toneEnhance lib args f) = m_rows f" "m_cols (toneEnhance lib args f) = m_cols f"
  by (simp_all add: toneEnhance_def unsharpMask_def enhanceLumaCLAHE_def addWeighted_def
        GaussianBlur_def Let_def)

lemma main_face_path:
  fixes lib args
  defines "v \<equiv> cv_imread lib (inputPath args)"
  defines "roi \<equiv> expandRoi (detectFace lib v) (m_cols v) (m_rows v)"
  assumes ne: "\<not> mat_empty v"
    and casc: "cv_cascade_load lib (cascadePath args)"
    and ar: "area (detectFace lib v) \<noteq> 0"
    and ok: "rect_inv roi (m_cols v) (m_rows v)"
    and sr: "superResolution lib args (crop v roi) = (diag, Inr face)"
    and fne: "\<not> mat_empty face"
  shows "\<exists>out. o_imwrite (main lib args) = Some (outputPath args, out) \<and>
          o_status (main lib args) = (if cv_imwrite lib (outputPath args) out then Exit 0 else Exit 4) \<and>
          o_cerr (main lib args) = (if cv_imwrite lib (outputPath args) out then diag
                       else diag @ [''Failed to write output: '' @ outputPath args]) \<and>
          m_rows out = m_rows v \<and> m_cols out = m_cols v \<and>
          (\<forall>y x. \<not> inside roi y x \<longrightarrow> m_at out y x = m_at v y x) \<and>
          (\<forall>y x. inside roi y x \<longrightarrow> m_at out y x = (fst (m_at v y x), 0, 0))"
proof -
  let ?h1 = "snd (mat_alloc heap0 v)"
  let ?img = "\<lparr>mr_buf = 0, mr_y0 = 0, mr_x0 = 0, mr_rows = m_rows v, mr_cols = m_cols v\<rparr>"
  let ?result = "\<lparr>mr_buf = Suc 0, mr_y0 = 0, mr_x0 = 0, mr_rows = m_rows v, mr_cols = m_cols v\<rparr>"
  let ?h2 = "snd (mat_clone ?h1 ?img)"
  have img: "fst (mat_alloc heap0 v) = ?img"
    by (simp add: mat_alloc_def heap0_def)
  have res: "fst (mat_clone ?h1 ?img) = ?result"
    by (simp add: mat_clone_def mat_alloc_def heap0_def mat_load_def)
  have ld1: "mat_load ?h1 ?img = v"
    using mat_load_alloc [of heap0 v] by (simp only: img)
  have ld2: "mat_load ?h2 ?result = v"
    by (simp add: mat_clone_def mat_alloc_def heap0_def mat_load_def)
  have view: "mat_roi ?img roi =
      Inr \<lparr>mr_buf = 0, mr_y0 = r_y roi, mr_x0 = r_x roi, mr_rows = r_height roi, mr_cols = r_width roi\<rparr>"
    using ok by (simp add: mat_roi_def rect_inv_def)
  have cr: "mat_load ?h1 \<lparr>mr_buf = 0, mr_y0 = r_y roi, mr_x0 = r_x roi,
                mr_rows = r_height roi, mr_cols = r_width roi\<rparr> = crop v roi"
    by (simp add: mat_load_def crop_def mat_alloc_def heap0_def)
  let ?te = "toneEnhance lib args face"
  have tne: "\<not> mat_empty ?te" using fne by (simp add: mat_empty_def)
  let ?fb = "\<lparr>m_rows = r_height roi, m_cols = r_width roi,
               m_at = cv_resize_cubic lib ?te (r_width roi) (r_height roi)\<rparr>"
  have rs: "resize_dsize lib ?te (r_width roi) (r_height roi) = Inr ?fb"
    using tne ok by (simp add: resize_dsize_def rect_inv_def)
  have fbne: "\<not> mat_empty ?fb" using ok by (simp add: mat_empty_def rect_inv_def)
  have "rect_inv roi (mr_cols ?result) (mr_rows ?result)" using ok by simp
  from pasteWithFeather_succeeds [OF this fbne]
  obtain h3 where p: "pasteWithFeather lib ?fb roi ?result ?h2 = Inr h3" by blast
  let ?out = "mat_load h3 ?result"
  have m: "main lib args =
            \<lparr>o_status = (if cv_imwrite lib (outputPath args) ?out then Exit 0 else Exit 4),
             o_cerr = (if cv_imwrite lib (outputPath args) ?out then diag
                       else diag @ [''Failed to write output: '' @ outputPath args]),
             o_cout = (if cv_imwrite lib (outputPath args) ?out then [''Saved: '' @ outputPath args] else []),
             o_imwrite = Some (outputPath args, ?out), o_heap = h3\<rparr>"
    using ne casc ar
    by (simp add: main_def split_beta Let_def v_def [symmetric] img ld1 roi_def [symmetric]
          view cr sr rs res p)
  have d: "m_rows ?out = m_rows v" "m_cols ?out = m_cols v"
    by (simp_all add: mat_load_def)
  have outside: "m_at ?out y x = m_at v y x" if "\<not> inside roi y x" for y x
    using pasteWithFeather_frame(3) [OF p that] ld2 by simp
  have ins: "m_at ?out y x = (fst (m_at v y x), 0, 0)" if "inside roi y x" for y x
    using pasteWithFeather_inside [OF p that] ld2 by simp
  have m1: "o_imwrite (main lib args) = Some (outputPath args, ?out)"
    and m2: "o_status (main lib args) = (if cv_imwrite lib (outputPath args) ?out then Exit 0 else Exit 4)"
    and m3: "o_cerr (main lib args) = (if cv_imwrite lib (outputPath args) ?out then diag
                       else diag @ [''Failed to write output: '' @ outputPath args])"
    by (simp_all add: m)
  show ?thesis
  proof (intro exI [of _ ?out] conjI allI impI)
    show "o_imwrite (main lib args) = Some (outputPath args, ?out)" by (rule m1)
    show "o_status (main lib args) = (if cv_imwrite lib (outputPath args) ?out then Exit 0 else Exit 4)"
      by (rule m2)
    show "o_cerr (main lib args) = (if cv_imwrite lib (outputPath args) ?out then diag
                       else diag @ [''Failed to write output: '' @ outputPath args])"
      by (rule m3)
    show "m_rows ?out = m_rows v" by (rule d(1))
    show "m_cols ?out = m_cols v" by (rule d(2))
    show "m_at ?out y x = m_at v y x" if "\<not> inside roi y x" for y x
      using that by (rule outside)
    show "m_at ?out y x = (fst (m_at v y x), 0, 0)" if "inside roi y x" for y x
      using that by (rule ins)
  qed
qed

lemma crop_not_empty: "rect_inv roi cols rows \<Longrightarrow> \<not> mat_empty (crop v roi)"
  by (simp add: rect_inv_def crop_def mat_empty_def)

lemma scale_threshold_gt: "101 / 100 < scale_threshold" "scale_threshold < 15 / 10"
  by (simp_all add: scale_threshold_def)

subsection \<open>No detection\<close>

text \<open>
  Claim C1. When the input image is decoded, the cascade is loaded and the detector
  reports no candidate rectangle, the program exits with code 0 and the image it hands
  to \<^verbatim>\<open>imwrite\<close> is the decoded input image itself: same size, same pixels.
\<close>

theorem no_face_passthrough:
  assumes "\<not> mat_empty (cv_imread lib (inputPath args))"
    and "cv_cascade_load lib (cascadePath args)"
    and "cv_detectMultiScale lib (equalizedGray lib (cv_imread lib (inputPath args))) = []"
  shows "o_status (main lib args) = Exit 0 \<and>
         o_imwrite (main lib args) = Some (outputPath args, cv_imread lib (inputPath args)) \<and>
         (\<exists>out. o_imwrite (main lib args) = Some (outputPath args, out) \<and>
                same_pixels out (cv_imread lib (inputPath args)))"
proof -
  have "area (detectFace lib (cv_imread lib (inputPath args))) = 0"
    by (simp add: detectFace_def assms(3) Rect0_def area_def)
  from main_no_face [OF assms(1,2) this] show ?thesis
    by (simp add: same_pixels_def)
qed

theorem no_face_passthrough_witness:
  "o_status (main (scenario_lib\<lparr>cv_detectMultiScale := \<lambda>gray. []\<rparr>) scenarioA_args) = Exit 0 \<and>
   o_imwrite (main (scenario_lib\<lparr>cv_detectMultiScale := \<lambda>gray. []\<rparr>) scenarioA_args)
     = Some (''enhanced.png'', scenario_img)"
proof -
  let ?lib = "scenario_lib\<lparr>cv_detectMultiScale := \<lambda>gray. []\<rparr>"
  have a: "\<not> mat_empty (cv_imread ?lib (inputPath scenarioA_args))"
    by (simp add: scenario_lib_def scenario_img_def mat_empty_def)
  have b: "cv_cascade_load ?lib (cascadePath scenarioA_args)"
    by (simp add: scenario_lib_def)
  have c: "cv_detectMultiScale ?lib (equalizedGray ?lib (cv_imread ?lib (inputPath scenarioA_args))) = []"
    by simp
  from no_face_passthrough [OF a b c] show ?thesis
    by (simp add: scenario_lib_def scenarioA_args_def)
qed

subsection \<open>The feather mask is constant\<close>

text \<open>
  Claim C2. For every non-empty size, every radius and every kernel that
  \<^verbatim>\<open>getGaussianKernel\<close> may return, the mask that \<^verbatim>\<open>featherMask\<close> returns is 0 at every
  element: filtering the all-ones field with the reflecting default border gives a
  constant field, and \<^verbatim>\<open>normalize\<close> maps a constant field to 0. The minimum of the
  mask is 0 and so is its maximum; the maximum is not 1.
\<close>

theorem featherMask_all_zero:
  assumes "0 < width" "0 < height"
  shows "(\<forall>y x. m_at (featherMask lib width height radius) y x = 0) \<and>
         Min (set (mat_values (featherMask lib width height radius))) = 0 \<and>
         Max (set (mat_values (featherMask lib width height radius))) = 0"
proof -
  have z: "\<forall>y x. m_at (featherMask lib width height radius) y x = 0"
    using featherMask_zero(1) [OF assms] by simp
  have "set (mat_values (featherMask lib width height radius)) = {0}"
    by (rule mat_values_constant) (use z featherMask_zero(2,3) [OF assms] assms in simp_all)
  with z show ?thesis by simp
qed

theorem featherMask_all_zero_witness:
  "m_at (featherMask scenario_lib 124 160 (max 3 (124 sdiv 20))) 80 62 = 0 \<and>
   Max (set (mat_values (featherMask scenario_lib 124 160 (max 3 (124 sdiv 20))))) \<noteq> 1"
proof -
  have "(0::int) < 124" "(0::int) < 160" by simp_all
  from featherMask_all_zero [OF this, of scenario_lib "max 3 (124 sdiv 20)"] show ?thesis by simp
qed

subsection \<open>Scenario A\<close>

text \<open>
  Claim C3. For a 400 x 400 input image with the single detected face
  \<open>(100, 100, 100, 120)\<close>, sharpen amount 1, no super-resolution model and scale 1, the
  image handed to \<^verbatim>\<open>imwrite\<close> is 400 x 400 and equals the input at every pixel outside
  the expanded rectangle \<open>(88, 80, 124, 160)\<close>. At every pixel inside the rectangle it
  is the input pixel with its second and third channel set to 0, whatever the
  enhancement stages computed: the enhanced face does not reach the output.
\<close>

theorem scenarioA_output:
  assumes "m_rows (cv_imread lib (inputPath args)) = 400"
    and "m_cols (cv_imread lib (inputPath args)) = 400"
    and "cv_cascade_load lib (cascadePath args)"
    and "cv_detectMultiScale lib (equalizedGray lib (cv_imread lib (inputPath args)))
           = [\<lparr>r_x = 100, r_y = 100, r_width = 100, r_height = 120\<rparr>]"
    and "srModelPath args = []" "srScale args = 1" "sharpenAmount args = 1"
  shows "\<exists>out. o_imwrite (main lib args) = Some (outputPath args, out) \<and>
           m_rows out = 400 \<and> m_cols out = 400 \<and>
           (\<forall>y x. \<not> inside \<lparr>r_x = 88, r_y = 80, r_width = 124, r_height = 160\<rparr> y x \<longrightarrow>
                    m_at out y x = m_at (cv_imread lib (inputPath args)) y x) \<and>
           (\<forall>y x. inside \<lparr>r_x = 88, r_y = 80, r_width = 124, r_height = 160\<rparr> y x \<longrightarrow>
                    m_at out y x = (fst (m_at (cv_imread lib (inputPath args)) y x), 0, 0))"
proof -
  let ?v = "cv_imread lib (inputPath args)"
  let ?face = "\<lparr>r_x = 100, r_y = 100, r_width = 100, r_height = 120\<rparr>"
  let ?roi = "\<lparr>r_x = 88, r_y = 80, r_width = 124, r_height = 160\<rparr>"
  have df: "detectFace lib ?v = ?face" by (simp add: detectFace_def assms(4))
  have roi: "expandRoi (detectFace lib ?v) (m_cols ?v) (m_rows ?v) = ?roi"
    by (simp add: df assms(1,2) expandRoi_def Let_def sdiv_pos_eq_div)
  have ne: "\<not> mat_empty ?v" by (simp add: mat_empty_def assms(1,2))
  have ar: "area (detectFace lib ?v) \<noteq> 0" by (simp add: df area_def)
  have ok: "rect_inv (expandRoi (detectFace lib ?v) (m_cols ?v) (m_rows ?v)) (m_cols ?v) (m_rows ?v)"
    unfolding roi by (simp add: assms(1,2) rect_inv_def)
  have sr: "superResolution lib args (crop ?v (expandRoi (detectFace lib ?v) (m_cols ?v) (m_rows ?v)))
              = ([], Inr (crop ?v (expandRoi (detectFace lib ?v) (m_cols ?v) (m_rows ?v))))"
    by (simp add: superResolution_def assms(5,6) scale_threshold_def)
  have fne: "\<not> mat_empty (crop ?v (expandRoi (detectFace lib ?v) (m_cols ?v) (m_rows ?v)))"
    by (rule crop_not_empty [OF ok])
  note mf = main_face_path [OF ne assms(3) ar ok sr fne, unfolded roi, unfolded assms(1,2)]
  from mf obtain out where
    X: "o_imwrite (main lib args) = Some (outputPath args, out) \<and>
        o_status (main lib args) = (if cv_imwrite lib (outputPath args) out then Exit 0 else Exit 4) \<and>
        o_cerr (main lib args) = (if cv_imwrite lib (outputPath args) out then []
                       else [] @ [''Failed to write output: '' @ outputPath args]) \<and>
        m_rows out = 400 \<and> m_cols out = 400 \<and>
        (\<forall>y x. \<not> inside ?roi y x \<longrightarrow> m_at out y x = m_at ?v y x) \<and>
        (\<forall>y x. inside ?roi y x \<longrightarrow> m_at out y x = (fst (m_at ?v y x), 0, 0))" ..
  show ?thesis
  proof (intro exI [of _ out] conjI)
    show "o_imwrite (main lib args) = Some (outputPath args, out)" using X by (rule conjunct1)
    show "m_rows out = 400" using X by simp
    show "m_cols out = 400" using X by simp
    show "\<forall>y x. \<not> inside ?roi y x \<longrightarrow> m_at out y x = m_at ?v y x" using X by simp
    show "\<forall>y x. inside ?roi y x \<longrightarrow> m_at out y x = (fst (m_at ?v y x), 0, 0)" using X by simp
  qed
qed

theorem scenarioA_output_witness:
  "\<exists>out. o_imwrite (main scenario_lib scenarioA_args) = Some (''enhanced.png'', out) \<and>
         same_pixels out scenario_img"
proof -
  have a: "m_rows (cv_imread scenario_lib (inputPath scenarioA_args)) = 400"
    "m_cols (cv_imread scenario_lib (inputPath scenarioA_args)) = 400"
    by (simp_all add: scenario_lib_def scenario_img_def)
  have b: "cv_cascade_load scenario_lib (cascadePath scenarioA_args)"
    by (simp add: scenario_lib_def)
  have c: "cv_detectMultiScale scenario_lib
             (equalizedGray scenario_lib (cv_imread scenario_lib (inputPath scenarioA_args)))
           = [\<lparr>r_x = 100, r_y = 100, r_width = 100, r_height = 120\<rparr>]"
    by (simp add: scenario_lib_def scenario_face_def)
  have d: "srModelPath scenarioA_args = []" "srScale scenarioA_args = 1"
    "sharpenAmount scenarioA_args = 1"
    by (simp_all add: scenarioA_args_def)
  have v: "cv_imread scenario_lib (inputPath scenarioA_args) = scenario_img"
    by (simp add: scenario_lib_def)
  from scenarioA_output [OF a b c d]
  obtain out where m: "o_imwrite (main scenario_lib scenarioA_args) = Some (outputPath scenarioA_args, out)"
    and dm: "m_rows out = 400" "m_cols out = 400"
    and o: "\<forall>y x. \<not> inside \<lparr>r_x = 88, r_y = 80, r_width = 124, r_height = 160\<rparr> y x \<longrightarrow>
                    m_at out y x = m_at scenario_img y x"
    and i: "\<forall>y x. inside \<lparr>r_x = 88, r_y = 80, r_width = 124, r_height = 160\<rparr> y x \<longrightarrow>
                    m_at out y x = (fst (m_at scenario_img y x), 0, 0)"
    unfolding v by blast
  have "m_at out y x = m_at scenario_img y x" for y x
    using o [rule_format, of y x] i [rule_format, of y x]
    by (cases "inside \<lparr>r_x = 88, r_y = 80, r_width = 124, r_height = 160\<rparr> y x")
       (simp_all add: scenario_img_def)
  then have "same_pixels out scenario_img"
    using dm by (simp add: same_pixels_def scenario_img_def)
  with m show ?thesis by (auto simp: scenarioA_args_def)
qed

subsection \<open>What compositing writes\<close>

lemma main_heap_img:
  "h_data (o_heap (main lib args)) 0 = m_at (cv_imread lib (inputPath args))"
proof -
  let ?v = "cv_imread lib (inputPath args)"
  let ?h1 = "snd (mat_alloc heap0 ?v)"
  let ?img = "fst (mat_alloc heap0 ?v)"
  have h1: "h_data ?h1 0 = m_at ?v" by (simp add: mat_alloc_def heap0_def)
  have h2: "h_data (snd (mat_clone ?h1 ?img)) 0 = m_at ?v"
    by (simp add: mat_clone_def mat_alloc_def heap0_def)
  have rb: "mr_buf (fst (mat_clone ?h1 ?img)) \<noteq> 0"
    by (simp add: mat_clone_def mat_alloc_def heap0_def)
  have h3: "h_data h' 0 = m_at ?v"
    if "pasteWithFeather lib f roi (fst (mat_clone ?h1 ?img)) (snd (mat_clone ?h1 ?img)) = Inr h'"
    for f roi h'
    using pasteWithFeather_frame(2) [OF that, of 0] rb h2 by simp
  show ?thesis
    by (auto simp: main_def split_beta Let_def h1 h2 h3 split: sum.splits)
qed

text \<open>
  Claim C4. When \<^verbatim>\<open>pasteWithFeather\<close> returns, every pixel of the canvas outside the
  target rectangle is what it was before the call, and so is every other buffer of the
  heap. In \<^verbatim>\<open>main\<close> the decoded image \<^verbatim>\<open>img\<close> is buffer 0, the canvas is a clone in a
  different buffer, and at the end of every run buffer 0 still holds the decoded
  pixels.
\<close>

theorem paste_frame_and_source_intact:
  "(pasteWithFeather lib face roi canvas h = Inr h' \<longrightarrow>
      (\<forall>y x. \<not> inside roi y x \<longrightarrow> m_at (mat_load h' canvas) y x = m_at (mat_load h canvas) y x) \<and>
      (\<forall>a. a \<noteq> mr_buf canvas \<longrightarrow> h_data h' a = h_data h a)) \<and>
   mr_buf (fst (mat_alloc heap0 (cv_imread lib (inputPath args)))) = 0 \<and>
   h_data (o_heap (main lib args)) 0 = m_at (cv_imread lib (inputPath args))"
proof (intro conjI impI allI)
  fix y x assume "pasteWithFeather lib face roi canvas h = Inr h'" "\<not> inside roi y x"
  then show "m_at (mat_load h' canvas) y x = m_at (mat_load h canvas) y x"
    by (rule pasteWithFeather_frame(3))
next
  fix a assume "pasteWithFeather lib face roi canvas h = Inr h'" "a \<noteq> mr_buf canvas"
  then show "h_data h' a = h_data h a"
    by (rule pasteWithFeather_frame(2))
next
  show "mr_buf (fst (mat_alloc heap0 (cv_imread lib (inputPath args)))) = 0"
    by (simp add: mat_alloc_def heap0_def)
next
  show "h_data (o_heap (main lib args)) 0 = m_at (cv_imread lib (inputPath args))"
    by (rule main_heap_img)
qed

theorem paste_frame_and_source_intact_witness:
  "\<exists>h'. pasteWithFeather scenario_lib scenario_img
            \<lparr>r_x = 88, r_y = 80, r_width = 124, r_height = 160\<rparr>
            (fst (mat_alloc heap0 scenario_img)) (snd (mat_alloc heap0 scenario_img)) = Inr h' \<and>
         m_at (mat_load h' (fst (mat_alloc heap0 scenario_img))) 0 0 = (200, 0, 0) \<and>
         h_data (o_heap (main scenario_lib scenarioA_args)) 0 = m_at scenario_img"
proof -
  let ?roi = "\<lparr>r_x = 88, r_y = 80, r_width = 124, r_height = 160\<rparr>"
  let ?c = "fst (mat_alloc heap0 scenario_img)"
  let ?h = "snd (mat_alloc heap0 scenario_img)"
  have "rect_inv ?roi (mr_cols ?c) (mr_rows ?c)"
    by (simp add: rect_inv_def mat_alloc_def scenario_img_def)
  moreover have "\<not> mat_empty scenario_img" by (simp add: mat_empty_def scenario_img_def)
  ultimately obtain h' where p: "pasteWithFeather scenario_lib scenario_img ?roi ?c ?h = Inr h'"
    using pasteWithFeather_succeeds by blast
  have out: "\<not> inside ?roi 0 0" by (simp add: inside_def)
  have old: "m_at (mat_load ?h ?c) 0 0 = (200, 0, 0)" by (simp add: scenario_img_def)
  have v: "cv_imread scenario_lib (inputPath scenarioA_args) = scenario_img"
    by (simp add: scenario_lib_def)
  from paste_frame_and_source_intact [of scenario_lib scenario_img ?roi ?c ?h h' scenarioA_args]
    p out old v
  show ?thesis by simp
qed

subsection \<open>Failure of the upsampling model\<close>



lemma resize_scale_ok:
  assumes "\<not> mat_empty face" "1 \<le> s"
  shows "resize_scale lib face s s =
           Inr \<lparr>m_rows = cvRound (of_int (m_rows face) * s), m_cols = cvRound (of_int (m_cols face) * s),
                m_at = cv_resize_cubic lib face (cvRound (of_int (m_cols face) * s))
                         (cvRound (of_int (m_rows face) * s))\<rparr>"
    and "m_rows face \<le> cvRound (of_int (m_rows face) * s)"
    and "m_cols face \<le> cvRound (of_int (m_cols face) * s)"
proof -
  from assms(1) have pos: "0 < m_rows face" "0 < m_cols face" by (simp_all add: mat_empty_def)
  have "of_int (m_rows face) * 1 \<le> of_int (m_rows face) * s"
    using pos(1) assms(2) by (intro mult_left_mono) simp_all
  then show r: "m_rows face \<le> cvRound (of_int (m_rows face) * s)"
    by (intro cvRound_ge) simp
  have "of_int (m_cols face) * 1 \<le> of_int (m_cols face) * s"
    using pos(2) assms(2) by (intro mult_left_mono) simp_all
  then show c: "m_cols face \<le> cvRound (of_int (m_cols face) * s)"
    by (intro cvRound_ge) simp
  from r c pos assms show "resize_scale lib face s s =
           Inr \<lparr>m_rows = cvRound (of_int (m_rows face) * s), m_cols = cvRound (of_int (m_cols face) * s),
                m_at = cv_resize_cubic lib face (cvRound (of_int (m_cols face) * s))
                         (cvRound (of_int (m_rows face) * s))\<rparr>"
    by (simp add: resize_scale_def Let_def)
qed






subsection \<open>Size of the super-resolved face\<close>

lemma cvRound_tie: "cvRound (123 * (15 / 10)) = 184" "cvRound (369 / 2) = 184"
  by (simp_all add: cvRound_def Let_def)

lemma cvRound_lt_one: "\<bar>of_int (cvRound v) - v\<bar> < 1"
  using cvRound_nearest [of v] by linarith

lemma superResolution_bicubic:
  assumes "\<not> mat_empty face" and "scale_threshold < srScale args"
    and "srModelPath args = [] \<or> srScale args < 15 / 10 \<or>
         (\<exists>what. cv_dnn_upsample lib (srModelPath args) (infer_algo (srModelPath args))
                    (std_round (srScale args)) face = Inl what)"
  shows "snd (superResolution lib args face) =
           Inr \<lparr>m_rows = cvRound (of_int (m_rows face) * srScale args),
                m_cols = cvRound (of_int (m_cols face) * srScale args),
                m_at = cv_resize_cubic lib face (cvRound (of_int (m_cols face) * srScale args))
                         (cvRound (of_int (m_rows face) * srScale args))\<rparr>"
proof -
  have s1: "1 \<le> srScale args" using assms(2) scale_threshold_gt(1) by simp
  have "snd (superResolution lib args face) = resize_scale lib face (srScale args) (srScale args)"
    using assms(2,3) by (auto simp: superResolution_def)
  then show ?thesis by (simp only: resize_scale_ok(1) [OF assms(1) s1])
qed

lemma superResolution_passthrough:
  assumes "srScale args \<le> scale_threshold"
  shows "snd (superResolution lib args face) = Inr face"
  using assms scale_threshold_gt(2) by (simp add: superResolution_def)

text \<open>
  Claim C6, as the code has it. Take a non-empty face and a requested scale \<open>s \<ge> 1\<close>
  whose scaled sides fit a C \<^verbatim>\<open>int\<close>.
  \<^item> For \<open>s \<le> 1.01\<close> the face passes through unchanged, with or without a model.
  \<^item> When the model runs, the block returns the image the model returned; nothing
    checks its size.
  \<^item> When no model runs to the end (no model path, \<open>s < 1.5\<close>, or the model throws),
    the output is never smaller than the input; it is the input up to the threshold
    of line 189 and the bicubic resize above it, whose sides are less than 1 away from
    the input's times \<open>s\<close>. For the scales 1.5, 2, 3 and 4, and every other \<open>s\<close> with
    \<open>2 s\<close> an integer, the product is exact in \<^verbatim>\<open>double\<close> arithmetic as it is here, and
    the sides are \<^verbatim>\<open>cvRound\<close> of it: the nearest integer, a tie going to the even one.
\<close>

theorem superResolution_size:
  assumes "\<not> mat_empty face" and "1 \<le> srScale args"
    and "of_int (m_rows face) * srScale args \<le> 2147483647"
    and "of_int (m_cols face) * srScale args \<le> 2147483647"
  shows "(srScale args \<le> 101 / 100 \<longrightarrow> snd (superResolution lib args face) = Inr face) \<and>
         (\<forall>up. srModelPath args \<noteq> [] \<and> 15 / 10 \<le> srScale args \<and>
               cv_dnn_upsample lib (srModelPath args) (infer_algo (srModelPath args))
                 (std_round (srScale args)) face = Inr up \<longrightarrow>
               snd (superResolution lib args face) = Inr up) \<and>
         (srModelPath args = [] \<or> srScale args < 15 / 10 \<or>
          (\<exists>what. cv_dnn_upsample lib (srModelPath args) (infer_algo (srModelPath args))
                     (std_round (srScale args)) face = Inl what) \<longrightarrow>
            (\<exists>out. snd (superResolution lib args face) = Inr out \<and>
                   m_rows face \<le> m_rows out \<and> m_cols face \<le> m_cols out \<and>
                   (srScale args \<le> scale_threshold \<longrightarrow> out = face) \<and>
                   (scale_threshold < srScale args \<longrightarrow>
                      \<bar>of_int (m_rows out) - of_int (m_rows face) * srScale args\<bar> < 1 \<and>
                      \<bar>of_int (m_cols out) - of_int (m_cols face) * srScale args\<bar> < 1) \<and>
                   (scale_threshold < srScale args \<and> (\<exists>k::int. 2 * srScale args = of_int k) \<longrightarrow>
                      m_rows out = cvRound (of_int (m_rows face) * srScale args) \<and>
                      m_cols out = cvRound (of_int (m_cols face) * srScale args))))"
proof (intro conjI allI impI)
  assume "srScale args \<le> 101 / 100"
  then have "srScale args \<le> scale_threshold" using scale_threshold_gt(1) by simp
  then show "snd (superResolution lib args face) = Inr face"
    by (rule superResolution_passthrough)
next
  fix up
  assume "srModelPath args \<noteq> [] \<and> 15 / 10 \<le> srScale args \<and>
               cv_dnn_upsample lib (srModelPath args) (infer_algo (srModelPath args))
                 (std_round (srScale args)) face = Inr up"
  then show "snd (superResolution lib args face) = Inr up"
    by (simp add: superResolution_def)
next
  let ?s = "srScale args"
  assume nm: "srModelPath args = [] \<or> ?s < 15 / 10 \<or>
          (\<exists>what. cv_dnn_upsample lib (srModelPath args) (infer_algo (srModelPath args))
                     (std_round ?s) face = Inl what)"
  show "\<exists>out. snd (superResolution lib args face) = Inr out \<and>
                   m_rows face \<le> m_rows out \<and> m_cols face \<le> m_cols out \<and>
                   (?s \<le> scale_threshold \<longrightarrow> out = face) \<and>
                   (scale_threshold < ?s \<longrightarrow>
                      \<bar>of_int (m_rows out) - of_int (m_rows face) * ?s\<bar> < 1 \<and>
                      \<bar>of_int (m_cols out) - of_int (m_cols face) * ?s\<bar> < 1) \<and>
                   (scale_threshold < ?s \<and> (\<exists>k::int. 2 * ?s = of_int k) \<longrightarrow>
                      m_rows out = cvRound (of_int (m_rows face) * ?s) \<and>
                      m_cols out = cvRound (of_int (m_cols face) * ?s))"
  proof (cases "scale_threshold < ?s")
    case True
    let ?out = "\<lparr>m_rows = cvRound (of_int (m_rows face) * ?s),
                 m_cols = cvRound (of_int (m_cols face) * ?s),
                 m_at = cv_resize_cubic lib face (cvRound (of_int (m_cols face) * ?s))
                          (cvRound (of_int (m_rows face) * ?s))\<rparr>"
    have sr: "snd (superResolution lib args face) = Inr ?out"
      by (rule superResolution_bicubic [OF assms(1) True nm])
    have ge: "m_rows face \<le> m_rows ?out" "m_cols face \<le> m_cols ?out"
      using resize_scale_ok(2,3) [OF assms(1,2)] by simp_all
    have near: "\<bar>of_int (m_rows ?out) - of_int (m_rows face) * ?s\<bar> < 1"
      "\<bar>of_int (m_cols ?out) - of_int (m_cols face) * ?s\<bar> < 1"
      by (simp_all add: cvRound_lt_one)
    have np: "\<not> ?s \<le> scale_threshold" using True by simp
    show ?thesis
    proof (intro exI [of _ ?out] conjI impI)
      show "snd (superResolution lib args face) = Inr ?out" by (rule sr)
      show "m_rows face \<le> m_rows ?out" by (rule ge(1))
      show "m_cols face \<le> m_cols ?out" by (rule ge(2))
      show "?out = face" if "?s \<le> scale_threshold" using that np by simp
      show "\<bar>of_int (m_rows ?out) - of_int (m_rows face) * ?s\<bar> < 1" by (rule near(1))
      show "\<bar>of_int (m_cols ?out) - of_int (m_cols face) * ?s\<bar> < 1" by (rule near(2))
      show "m_rows ?out = cvRound (of_int (m_rows face) * ?s)" by simp
      show "m_cols ?out = cvRound (of_int (m_cols face) * ?s)" by simp
    qed
  next
    case False
    then have le: "?s \<le> scale_threshold" by simp
    have sr: "snd (superResolution lib args face) = Inr face"
      by (rule superResolution_passthrough [OF le])
    show ?thesis
    proof (intro exI [of _ face] conjI impI)
      show "snd (superResolution lib args face) = Inr face" by (rule sr)
      show "m_rows face \<le> m_rows face" by simp
      show "m_cols face \<le> m_cols face" by simp
      show "face = face" by simp
      show "\<bar>of_int (m_rows face) - of_int (m_rows face) * ?s\<bar> < 1" if "scale_threshold < ?s"
        using that False by simp
      show "\<bar>of_int (m_cols face) - of_int (m_cols face) * ?s\<bar> < 1" if "scale_threshold < ?s"
        using that False by simp
      show "m_rows face = cvRound (of_int (m_rows face) * ?s)"
        if "scale_threshold < ?s \<and> (\<exists>k::int. 2 * ?s = of_int k)" using that False by simp
      show "m_cols face = cvRound (of_int (m_cols face) * ?s)"
        if "scale_threshold < ?s \<and> (\<exists>k::int. 2 * ?s = of_int k)" using that False by simp
    qed
  qed
qed

text \<open>
  Against the claim as stated: without a model, a face of 123 rows at scale 1.5 comes out
  with 184 rows, where rounding 184.5 the usual way (\<^verbatim>\<open>std::round\<close>, or \<open>round\<close>) gives
  185; and a model that returns a 1 x 1 image makes the output smaller than the input.
\<close>

theorem superResolution_size_counterexample:
  "(\<exists>out. snd (superResolution scenario_lib bicubic_args odd_face) = Inr out \<and>
          m_rows out = 184 \<and>
          std_round (of_int (m_rows odd_face) * srScale bicubic_args) = 185 \<and>
          round (of_int (m_rows odd_face) * srScale bicubic_args) = 185 \<and>
          m_rows out \<noteq> std_round (of_int (m_rows odd_face) * srScale bicubic_args)) \<and>
   (\<exists>out. snd (superResolution shrink_lib model_args scenario_img) = Inr out \<and>
          m_rows out < m_rows scenario_img \<and> m_cols out < m_cols scenario_img)"
proof (intro conjI)
  have ne: "\<not> mat_empty odd_face" by (simp add: mat_empty_def odd_face_def)
  have thr: "scale_threshold < srScale bicubic_args"
    using scale_threshold_gt(2) by (simp add: bicubic_args_def)
  have nm: "srModelPath bicubic_args = [] \<or> srScale bicubic_args < 15 / 10 \<or>
         (\<exists>what. cv_dnn_upsample scenario_lib (srModelPath bicubic_args) (infer_algo (srModelPath bicubic_args))
                    (std_round (srScale bicubic_args)) odd_face = Inl what)"
    by (simp add: bicubic_args_def scenarioA_args_def)
  note sr = superResolution_bicubic [OF ne thr nm]
  have p: "of_int (m_rows odd_face) * srScale bicubic_args = 123 * (15 / 10)"
    by (simp add: odd_face_def bicubic_args_def)
  have r: "cvRound (of_int (m_rows odd_face) * srScale bicubic_args) = 184"
    unfolding p by (rule cvRound_tie(1))
  have st: "std_round (of_int (m_rows odd_face) * srScale bicubic_args) = 185"
    unfolding p std_round_def by simp
  have rd: "round (of_int (m_rows odd_face) * srScale bicubic_args :: real) = 185"
    unfolding p round_def by simp
  show "\<exists>out. snd (superResolution scenario_lib bicubic_args odd_face) = Inr out \<and>
          m_rows out = 184 \<and>
          std_round (of_int (m_rows odd_face) * srScale bicubic_args) = 185 \<and>
          round (of_int (m_rows odd_face) * srScale bicubic_args) = 185 \<and>
          m_rows out \<noteq> std_round (of_int (m_rows odd_face) * srScale bicubic_args)"
    unfolding sr st rd by (simp add: r)
  have sr3: "std_round (3 / 2) = 2" unfolding std_round_def by simp
  show "\<exists>out. snd (superResolution shrink_lib model_args scenario_img) = Inr out \<and>
          m_rows out < m_rows scenario_img \<and> m_cols out < m_cols scenario_img"
    by (simp add: superResolution_def shrink_lib_def model_args_def scenario_img_def)
qed

theorem superResolution_size_witness:
  "(\<exists>out. snd (superResolution scenario_lib bicubic_args odd_face) = Inr out \<and>
          m_rows out = 184 \<and> m_cols out = 184) \<and>
   snd (superResolution scenario_lib scenarioA_args odd_face) = Inr odd_face \<and>
   (\<exists>out. snd (superResolution scenario_lib scenarioC_args scenario_img) = Inr out \<and>
          m_rows out = 800 \<and> m_cols out = 800) \<and>
   (\<exists>out. snd (superResolution model_lib model_args scenario_img) = Inr out \<and>
          m_rows out = 800 \<and> m_cols out = 800)"
proof (intro conjI)
  have ne: "\<not> mat_empty odd_face" by (simp add: mat_empty_def odd_face_def)
  have d: "m_rows odd_face = 123" "m_cols odd_face = 123" by (simp_all add: odd_face_def)
  have s: "srScale bicubic_args = 15 / 10" "srModelPath bicubic_args = []"
    by (simp_all add: bicubic_args_def scenarioA_args_def)
  have a2: "1 \<le> srScale bicubic_args" by (simp add: s)
  have a3: "of_int (m_rows odd_face) * srScale bicubic_args \<le> 2147483647"
    "of_int (m_cols odd_face) * srScale bicubic_args \<le> 2147483647"
    by (simp_all add: s d)
  have thr: "scale_threshold < srScale bicubic_args"
    using scale_threshold_gt(2) by (simp add: s)
  have half: "\<exists>k::int. 2 * srScale bicubic_args = of_int k"
    by (rule exI [of _ 3]) (simp add: s)
  from superResolution_size [OF ne a2 a3, of scenario_lib, THEN conjunct2, THEN conjunct2] s(2)
  obtain out where o: "snd (superResolution scenario_lib bicubic_args odd_face) = Inr out"
    and eq: "scale_threshold < srScale bicubic_args \<and> (\<exists>k::int. 2 * srScale bicubic_args = of_int k) \<longrightarrow>
                      m_rows out = cvRound (of_int (m_rows odd_face) * srScale bicubic_args) \<and>
                      m_cols out = cvRound (of_int (m_cols odd_face) * srScale bicubic_args)"
    by blast
  from eq thr half have "m_rows out = cvRound (123 * (15 / 10))" "m_cols out = cvRound (123 * (15 / 10))"
    by (simp_all add: d s)
  with o show "\<exists>out. snd (superResolution scenario_lib bicubic_args odd_face) = Inr out \<and>
          m_rows out = 184 \<and> m_cols out = 184"
    by (simp add: cvRound_tie)
next
  have ne: "\<not> mat_empty odd_face" by (simp add: mat_empty_def odd_face_def)
  have s: "srScale scenarioA_args = 1" by (simp add: scenarioA_args_def)
  have a2: "1 \<le> srScale scenarioA_args" by (simp add: s)
  have a3: "of_int (m_rows odd_face) * srScale scenarioA_args \<le> 2147483647"
    "of_int (m_cols odd_face) * srScale scenarioA_args \<le> 2147483647"
    by (simp_all add: s odd_face_def)
  from superResolution_size [OF ne a2 a3, of scenario_lib, THEN conjunct1]
  show "snd (superResolution scenario_lib scenarioA_args odd_face) = Inr odd_face"
    by (simp add: s)
next
  have ne: "\<not> mat_empty scenario_img" by (simp add: mat_empty_def scenario_img_def)
  have d: "m_rows scenario_img = 400" "m_cols scenario_img = 400" by (simp_all add: scenario_img_def)
  have s: "srScale scenarioC_args = 2" by (simp add: scenarioC_args_def)
  have a2: "1 \<le> srScale scenarioC_args" by (simp add: s)
  have a3: "of_int (m_rows scenario_img) * srScale scenarioC_args \<le> 2147483647"
    "of_int (m_cols scenario_img) * srScale scenarioC_args \<le> 2147483647"
    by (simp_all add: s d)
  have thr: "scale_threshold < srScale scenarioC_args"
    using scale_threshold_gt(2) by (simp add: s)
  have half: "\<exists>k::int. 2 * srScale scenarioC_args = of_int k"
    by (rule exI [of _ 4]) (simp add: s)
  have fails: "\<exists>what. cv_dnn_upsample scenario_lib (srModelPath scenarioC_args)
                  (infer_algo (srModelPath scenarioC_args))
                  (std_round (srScale scenarioC_args)) scenario_img = Inl what"
    by (simp add: scenario_lib_def)
  from superResolution_size [OF ne a2 a3, of scenario_lib, THEN conjunct2, THEN conjunct2] fails
  obtain out where o: "snd (superResolution scenario_lib scenarioC_args scenario_img) = Inr out"
    and eq: "scale_threshold < srScale scenarioC_args \<and> (\<exists>k::int. 2 * srScale scenarioC_args = of_int k) \<longrightarrow>
                      m_rows out = cvRound (of_int (m_rows scenario_img) * srScale scenarioC_args) \<and>
                      m_cols out = cvRound (of_int (m_cols scenario_img) * srScale scenarioC_args)"
    by blast
  from eq thr half have "m_rows out = 800" "m_cols out = 800"
    by (simp_all add: d s)
  with o show "\<exists>out. snd (superResolution scenario_lib scenarioC_args scenario_img) = Inr out \<and>
          m_rows out = 800 \<and> m_cols out = 800"
    by simp
next
  have ne: "\<not> mat_empty scenario_img" by (simp add: mat_empty_def scenario_img_def)
  have s: "srScale model_args = 15 / 10" "srModelPath model_args \<noteq> []"
    by (simp_all add: model_args_def)
  have a2: "1 \<le> srScale model_args" by (simp add: s)
  have a3: "of_int (m_rows scenario_img) * srScale model_args \<le> 2147483647"
    "of_int (m_cols scenario_img) * srScale model_args \<le> 2147483647"
    by (simp_all add: s scenario_img_def)
  have sr3: "std_round (3 / 2) = 2" unfolding std_round_def by simp
  let ?up = "\<lparr>m_rows = m_rows scenario_img * 2, m_cols = m_cols scenario_img * 2,
              m_at = \<lambda>y x. m_at scenario_img (y div 2) (x div 2)\<rparr>"
  have run: "srModelPath model_args \<noteq> [] \<and> 15 / 10 \<le> srScale model_args \<and>
             cv_dnn_upsample model_lib (srModelPath model_args) (infer_algo (srModelPath model_args))
               (std_round (srScale model_args)) scenario_img = Inr ?up"
    by (simp add: model_lib_def model_args_def sr3)
  from superResolution_size [OF ne a2 a3, of model_lib, THEN conjunct2, THEN conjunct1,
      rule_format, OF run]
  show "\<exists>out. snd (superResolution model_lib model_args scenario_img) = Inr out \<and>
          m_rows out = 800 \<and> m_cols out = 800"
    by (simp add: scenario_img_def)
qed

subsection \<open>Unsharp mask\<close>

text \<open>
  Claim C9. For \<open>amount \<le> 0\<close> \<^verbatim>\<open>unsharpMask\<close> returns its input. For \<open>amount > 0\<close> each
  channel of each output pixel is \<open>input * (1 + amount) - blurred * amount\<close>, rounded
  and clipped to \<open>0..255\<close>, where \<open>blurred\<close> is the Gaussian blur with kernel size 3
  for \<open>amount < 0.75\<close>, 5 for \<open>amount < 1.5\<close>, 7 for \<open>amount < 2.5\<close> and 9 otherwise;
  the output has the size of the input.
\<close>

theorem unsharpMask_formula:
  "(amount \<le> 0 \<longrightarrow> unsharpMask lib src amount = src) \<and>
   (0 < amount \<longrightarrow>
      (\<exists>k. (amount < 75 / 100 \<longrightarrow> k = 3) \<and>
           (75 / 100 \<le> amount \<and> amount < 15 / 10 \<longrightarrow> k = 5) \<and>
           (15 / 10 \<le> amount \<and> amount < 25 / 10 \<longrightarrow> k = 7) \<and>
           (25 / 10 \<le> amount \<longrightarrow> k = 9) \<and>
           m_rows (unsharpMask lib src amount) = m_rows src \<and>
           m_cols (unsharpMask lib src amount) = m_cols src \<and>
           (\<forall>y x. \<forall>c<3.
              uint (chan c (m_at (unsharpMask lib src amount) y x)) =
              clip255 (cvRound (real (unat (chan c (m_at src y x))) * (1 + amount)
                                - real (unat (chan c (m_at (GaussianBlur lib src k) y x))) * amount)))))"
proof (intro conjI impI)
  assume "amount \<le> 0"
  then show "unsharpMask lib src amount = src" by (simp add: unsharpMask_def)
next
  assume pos: "0 < amount"
  define k where "k = (if amount < 75 / 100 then 3 else if amount < 15 / 10 then 5
            else if amount < 25 / 10 then 7 else (9::int))"
  have u: "unsharpMask lib src amount
             = addWeighted src (1 + amount) (GaussianBlur lib src k) (- amount) 0"
    using pos by (simp add: unsharpMask_def Let_def k_def)
  have k3: "amount < 75 / 100 \<longrightarrow> k = 3" by (simp add: k_def)
  have k5: "75 / 100 \<le> amount \<and> amount < 15 / 10 \<longrightarrow> k = 5" by (simp add: k_def)
  have k7: "15 / 10 \<le> amount \<and> amount < 25 / 10 \<longrightarrow> k = 7" by (simp add: k_def)
  have k9: "25 / 10 \<le> amount \<longrightarrow> k = 9" by (simp add: k_def)
  have r: "m_rows (unsharpMask lib src amount) = m_rows src" by (simp add: u addWeighted_def)
  have c: "m_cols (unsharpMask lib src amount) = m_cols src" by (simp add: u addWeighted_def)
  have px: "\<forall>y x. \<forall>c<3.
              uint (chan c (m_at (unsharpMask lib src amount) y x)) =
              clip255 (cvRound (real (unat (chan c (m_at src y x))) * (1 + amount)
                                - real (unat (chan c (m_at (GaussianBlur lib src k) y x))) * amount))"
    unfolding u addWeighted_chan by (simp add: algebra_simps)
  from k3 k5 k7 k9 r c px
  show "\<exists>k. (amount < 75 / 100 \<longrightarrow> k = 3) \<and>
           (75 / 100 \<le> amount \<and> amount < 15 / 10 \<longrightarrow> k = 5) \<and>
           (15 / 10 \<le> amount \<and> amount < 25 / 10 \<longrightarrow> k = 7) \<and>
           (25 / 10 \<le> amount \<longrightarrow> k = 9) \<and>
           m_rows (unsharpMask lib src amount) = m_rows src \<and>
           m_cols (unsharpMask lib src amount) = m_cols src \<and>
           (\<forall>y x. \<forall>c<3.
              uint (chan c (m_at (unsharpMask lib src amount) y x)) =
              clip255 (cvRound (real (unat (chan c (m_at src y x))) * (1 + amount)
                                - real (unat (chan c (m_at (GaussianBlur lib src k) y x))) * amount)))"
    by (intro exI [of _ k] conjI)
qed

theorem unsharpMask_formula_witness:
  "unsharpMask scenario_lib scenario_img 0 = scenario_img \<and>
   uint (chan 0 (m_at (unsharpMask scenario_lib scenario_img 1) 5 7)) = 200 \<and>
   uint (chan 0 (m_at (unsharpMask scenario_lib \<lparr>m_rows = 2, m_cols = 2, m_at = \<lambda>y x. (200, 0, 0)\<rparr> 3) 0 0))
     = clip255 (cvRound (200 * (1 + 3) - real (unat (chan 0 (m_at (GaussianBlur scenario_lib
          \<lparr>m_rows = 2, m_cols = 2, m_at = \<lambda>y x. (200, 0, 0)\<rparr> 9) 0 0))) * 3))"
proof (intro conjI)
  show "unsharpMask scenario_lib scenario_img 0 = scenario_img"
    using unsharpMask_formula [of 0 scenario_lib scenario_img] by simp
  have g: "m_at (GaussianBlur scenario_lib scenario_img k) y x = (200, 0, 0)" for k y x
    by (simp add: GaussianBlur_def scenario_lib_def scenario_img_def)
  have s: "m_at scenario_img y x = (200, 0, 0)" for y x by (simp add: scenario_img_def)
  from unsharpMask_formula [of 1 scenario_lib scenario_img]
  obtain k where "\<forall>y x. \<forall>c<3.
              uint (chan c (m_at (unsharpMask scenario_lib scenario_img 1) y x)) =
              clip255 (cvRound (real (unat (chan c (m_at scenario_img y x))) * (1 + 1)
                                - real (unat (chan c (m_at (GaussianBlur scenario_lib scenario_img k) y x))) * 1))"
    by auto
  from this [rule_format, of 0 5 7]
  show "uint (chan 0 (m_at (unsharpMask scenario_lib scenario_img 1) 5 7)) = 200"
    by (simp add: g s clip255_def)
  let ?m = "\<lparr>m_rows = 2, m_cols = 2, m_at = \<lambda>y x. (200::uchar, 0::uchar, 0::uchar)\<rparr>"
  from unsharpMask_formula [of 3 scenario_lib ?m]
  obtain k where k: "k = 9" and "\<forall>y x. \<forall>c<3.
              uint (chan c (m_at (unsharpMask scenario_lib ?m 3) y x)) =
              clip255 (cvRound (real (unat (chan c (m_at ?m y x))) * (1 + 3)
                                - real (unat (chan c (m_at (GaussianBlur scenario_lib ?m k) y x))) * 3))"
    by auto
  from this(2) [rule_format, of 0 0 0]
  show "uint (chan 0 (m_at (unsharpMask scenario_lib ?m 3) 0 0))
     = clip255 (cvRound (200 * (1 + 3) - real (unat (chan 0 (m_at (GaussianBlur scenario_lib ?m 9) 0 0))) * 3))"
    unfolding k by simp
qed

end
